theory Spec2Isabelle
  imports Main "HOL-Library.Word" "HOL-Library.AList"
begin


section \<open>The platform: strings and values\<close>

text \<open>
  The application is a browser script (\<^verbatim>\<open>script.ts\<close>).  Its favorites service and its theme
  service keep their data in \<^verbatim>\<open>localStorage\<close>, as text written by \<^verbatim>\<open>JSON.stringify\<close> and
  read by \<^verbatim>\<open>JSON.parse\<close>.  These built-ins are not code of the repository; they are
  modelled here after ECMA-262 and the Web Storage standard, as far as the services use them.

  A JavaScript string is a sequence of 16-bit code units.  \<open>js\<close> embeds an ASCII literal.
\<close>

type_synonym char16 = "16 word"
type_synonym jstring = "char16 list"

definition ch :: "char \<Rightarrow> char16" where
  "ch c = of_nat (of_char c)"

definition js :: "string \<Rightarrow> jstring" where
  "js s = map ch s"

abbreviation QUOTE :: char16 where "QUOTE \<equiv> 0x22"
abbreviation BSLASH :: char16 where "BSLASH \<equiv> 0x5C"

text \<open>
  The values that \<^verbatim>\<open>JSON.parse\<close> can return, which are also all the values the favorites
  service handles.  \<open>JNum m e\<close> is the number \<open>m * 10 ^ e\<close>: every JSON numeral denotes
  such a number, and an integer \<open>n\<close> is \<open>JNum n 0\<close>.  The rounding of a numeral to an IEEE
  double is not modelled; the number fields of the application (\<open>id\<close>, \<open>timestamp\<close>) hold
  integers.  An object is the list of its properties in insertion order.
\<close>

datatype jsval =
    JNull
  | JBool bool
  | JNum int int
  | JStr jstring
  | JArr "jsval list"
  | JObj "(jstring \<times> jsval) list"

subsection \<open>\<^verbatim>\<open>JSON.stringify\<close>\<close>

text \<open>
  Without indentation, as the service calls it.  An integer is printed in decimal, which is
  what \<^verbatim>\<open>Number::toString\<close> does below \<open>10 ^ 21\<close>; a number with a decimal exponent is
  printed as a JSON numeral of the same value.  Strings are quoted as \<^verbatim>\<open>QuoteJSONString\<close>
  does: the two-character escapes, \<^verbatim>\<open>\uXXXX\<close> in lower-case hexadecimal for the other control
  characters and for unpaired surrogates, everything else as it is.
\<close>

definition digit :: "nat \<Rightarrow> char16" where
  "digit d = of_nat (48 + d)"

fun digits :: "nat \<Rightarrow> jstring" where
  "digits n = (if n < 10 then [digit n] else digits (n div 10) @ [digit (n mod 10)])"

declare digits.simps [simp del]

definition show_int :: "int \<Rightarrow> jstring" where
  "show_int i = (if i < 0 then ch CHR ''-'' # digits (nat (- i)) else digits (nat i))"

definition show_num :: "int \<Rightarrow> int \<Rightarrow> jstring" where
  "show_num m e = (if e = 0 then show_int m else show_int m @ ch CHR ''e'' # show_int e)"

definition hex_digit :: "nat \<Rightarrow> char16" where
  "hex_digit d = (if d < 10 then of_nat (48 + d) else of_nat (87 + d))"

definition unicode_escape :: "char16 \<Rightarrow> jstring" where
  "unicode_escape c =
     (let n = unat c in
      [BSLASH, ch CHR ''u'', hex_digit (n div 4096), hex_digit (n div 256 mod 16),
       hex_digit (n div 16 mod 16), hex_digit (n mod 16)])"

definition is_high :: "char16 \<Rightarrow> bool" where
  "is_high c = (0xD800 \<le> c \<and> c \<le> 0xDBFF)"

definition is_low :: "char16 \<Rightarrow> bool" where
  "is_low c = (0xDC00 \<le> c \<and> c \<le> 0xDFFF)"

definition quote_char :: "char16 \<Rightarrow> jstring" where
  "quote_char c =
     (if c = 0x08 then [BSLASH, ch CHR ''b'']
      else if c = 0x09 then [BSLASH, ch CHR ''t'']
      else if c = 0x0A then [BSLASH, ch CHR ''n'']
      else if c = 0x0C then [BSLASH, ch CHR ''f'']
      else if c = 0x0D then [BSLASH, ch CHR ''r'']
      else if c = QUOTE then [BSLASH, QUOTE]
      else if c = BSLASH then [BSLASH, BSLASH]
      else if c < 0x20 \<or> is_high c \<or> is_low c then unicode_escape c
      else [c])"

fun quote_body :: "jstring \<Rightarrow> jstring" where
  "quote_body [] = []"
| "quote_body [c] = quote_char c"
| "quote_body (c # d # ds) =
     (if is_high c \<and> is_low d then c # d # quote_body ds
      else quote_char c @ quote_body (d # ds))"

definition quote :: "jstring \<Rightarrow> jstring" where
  "quote s = QUOTE # quote_body s @ [QUOTE]"

fun join_comma :: "jstring list \<Rightarrow> jstring" where
  "join_comma [] = []"
| "join_comma [x] = x"
| "join_comma (x # y # ys) = x @ ch CHR '','' # join_comma (y # ys)"

fun stringify :: "jsval \<Rightarrow> jstring" where
  "stringify JNull = js ''null''"
| "stringify (JBool b) = (if b then js ''true'' else js ''false'')"
| "stringify (JNum m e) = show_num m e"
| "stringify (JStr s) = quote s"
| "stringify (JArr xs) = ch CHR ''['' # join_comma (map stringify xs) @ [ch CHR '']'']"
| "stringify (JObj ms) =
     ch CHR ''{'' # join_comma (map (\<lambda>(k, v). quote k @ ch CHR '':'' # stringify v) ms) @ [ch CHR ''}'']"


subsection \<open>\<^verbatim>\<open>JSON.parse\<close>: tokens\<close>

text \<open>
  \<^verbatim>\<open>JSON.parse\<close> either returns a value or throws a \<^verbatim>\<open>SyntaxError\<close>; the model returns
  \<open>None\<close> for the exception.  The text is first cut into tokens, following the JSON grammar
  (ECMA-404): the six structural characters, the three literal names, numbers
  \<^verbatim>\<open>-? (0 | [1-9][0-9]*) (. [0-9]+)? ([eE] [+-]? [0-9]+)?\<close> and strings with their escapes,
  separated by optional white space (space, tab, line feed, carriage return).
\<close>

datatype token =
    LBRACE | RBRACE | LBRACK | RBRACK | COLON | COMMA
  | TNull | TTrue | TFalse
  | TNum int int
  | TStr jstring

definition is_ws :: "char16 \<Rightarrow> bool" where
  "is_ws c = (c = 0x20 \<or> c = 0x09 \<or> c = 0x0A \<or> c = 0x0D)"

definition is_digit :: "char16 \<Rightarrow> bool" where
  "is_digit c = (0x30 \<le> c \<and> c \<le> 0x39)"

text \<open>What may follow a number in a serialised text: it does not continue the numeral.\<close>

definition num_end :: "jstring \<Rightarrow> bool" where
  "num_end rest =
     (case rest of
        [] \<Rightarrow> True
      | c # cs \<Rightarrow> \<not> is_digit c \<and> c \<noteq> ch CHR ''.'' \<and> c \<noteq> ch CHR ''e'' \<and> c \<noteq> ch CHR ''E'')"

definition digits_val :: "jstring \<Rightarrow> nat" where
  "digits_val ds = foldl (\<lambda>a c. 10 * a + (unat c - 48)) 0 ds"

definition hex_val :: "char16 \<Rightarrow> nat option" where
  "hex_val c =
     (if 0x30 \<le> c \<and> c \<le> 0x39 then Some (unat c - 48)
      else if 0x61 \<le> c \<and> c \<le> 0x66 then Some (unat c - 87)
      else if 0x41 \<le> c \<and> c \<le> 0x46 then Some (unat c - 55)
      else None)"

definition hex4_val :: "char16 \<Rightarrow> char16 \<Rightarrow> char16 \<Rightarrow> char16 \<Rightarrow> char16 option" where
  "hex4_val a b c d =
     (case (hex_val a, hex_val b, hex_val c, hex_val d) of
        (Some x, Some y, Some z, Some w) \<Rightarrow> Some (of_nat (x * 4096 + y * 256 + z * 16 + w))
      | _ \<Rightarrow> None)"

definition unescape :: "char16 \<Rightarrow> char16 option" where
  "unescape e =
     (if e = QUOTE then Some QUOTE
      else if e = BSLASH then Some BSLASH
      else if e = ch CHR ''/'' then Some (ch CHR ''/'')
      else if e = ch CHR ''b'' then Some 0x08
      else if e = ch CHR ''f'' then Some 0x0C
      else if e = ch CHR ''n'' then Some 0x0A
      else if e = ch CHR ''r'' then Some 0x0D
      else if e = ch CHR ''t'' then Some 0x09
      else None)"

definition prepend :: "char16 \<Rightarrow> (jstring \<times> jstring) option \<Rightarrow> (jstring \<times> jstring) option" where
  "prepend c r = (case r of None \<Rightarrow> None | Some (s, rest) \<Rightarrow> Some (c # s, rest))"

fun lex_string :: "jstring \<Rightarrow> (jstring \<times> jstring) option" where
  "lex_string [] = None"
| "lex_string (c # cs) =
     (if c = QUOTE then Some ([], cs)
      else if c = BSLASH then
        (case cs of
           [] \<Rightarrow> None
         | e # es \<Rightarrow>
             if e = ch CHR ''u'' then
               (case es of
                  h1 # h2 # h3 # h4 # rest \<Rightarrow>
                    (case hex4_val h1 h2 h3 h4 of
                       None \<Rightarrow> None
                     | Some u \<Rightarrow> prepend u (lex_string rest))
                | _ \<Rightarrow> None)
             else
               (case unescape e of
                  None \<Rightarrow> None
                | Some u \<Rightarrow> prepend u (lex_string es)))
      else if c < 0x20 then None
      else prepend c (lex_string cs))"

definition lex_sign :: "jstring \<Rightarrow> bool \<times> jstring" where
  "lex_sign s =
     (case s of
        [] \<Rightarrow> (False, s)
      | c # cs \<Rightarrow> if c = ch CHR ''-'' then (True, cs) else (False, s))"

definition lex_int :: "jstring \<Rightarrow> (jstring \<times> jstring) option" where
  "lex_int s =
     (let ip = takeWhile is_digit s
      in if ip = [] \<or> (hd ip = ch CHR ''0'' \<and> tl ip \<noteq> []) then None
         else Some (ip, dropWhile is_digit s))"

definition lex_frac :: "jstring \<Rightarrow> (jstring \<times> jstring) option" where
  "lex_frac s =
     (case s of
        [] \<Rightarrow> Some ([], s)
      | c # cs \<Rightarrow>
          if c = ch CHR ''.'' then
            (let fd = takeWhile is_digit cs
             in if fd = [] then None else Some (fd, dropWhile is_digit cs))
          else Some ([], s))"

definition lex_exp_sign :: "jstring \<Rightarrow> bool \<times> jstring" where
  "lex_exp_sign s =
     (case s of
        [] \<Rightarrow> (False, s)
      | c # cs \<Rightarrow>
          if c = ch CHR ''-'' then (True, cs)
          else if c = ch CHR ''+'' then (False, cs)
          else (False, s))"

definition lex_exp :: "jstring \<Rightarrow> (int \<times> jstring) option" where
  "lex_exp s =
     (case s of
        [] \<Rightarrow> Some (0, s)
      | c # cs \<Rightarrow>
          if c = ch CHR ''e'' \<or> c = ch CHR ''E'' then
            (case lex_exp_sign cs of
               (eneg, s') \<Rightarrow>
                 let ed = takeWhile is_digit s'
                 in if ed = [] then None
                    else Some (if eneg then - int (digits_val ed) else int (digits_val ed),
                               dropWhile is_digit s'))
          else Some (0, s))"

definition lex_number :: "jstring \<Rightarrow> ((int \<times> int) \<times> jstring) option" where
  "lex_number s =
     (case lex_sign s of
        (neg, s1) \<Rightarrow>
          (case lex_int s1 of
             None \<Rightarrow> None
           | Some (ip, s2) \<Rightarrow>
               (case lex_frac s2 of
                  None \<Rightarrow> None
                | Some (fd, s3) \<Rightarrow>
                    (case lex_exp s3 of
                       None \<Rightarrow> None
                     | Some (x, s4) \<Rightarrow>
                         Some ((if neg then - int (digits_val (ip @ fd))
                                else int (digits_val (ip @ fd)),
                                x - int (length fd)), s4)))))"

definition lex_word :: "string \<Rightarrow> token \<Rightarrow> jstring \<Rightarrow> (token \<times> jstring) option" where
  "lex_word w t s = (if take (length w) s = js w then Some (t, drop (length w) s) else None)"

definition lex_token :: "jstring \<Rightarrow> (token \<times> jstring) option" where
  "lex_token s =
     (case s of
        [] \<Rightarrow> None
      | c # cs \<Rightarrow>
          if c = ch CHR ''{'' then Some (LBRACE, cs)
          else if c = ch CHR ''}'' then Some (RBRACE, cs)
          else if c = ch CHR ''['' then Some (LBRACK, cs)
          else if c = ch CHR '']'' then Some (RBRACK, cs)
          else if c = ch CHR '':'' then Some (COLON, cs)
          else if c = ch CHR '','' then Some (COMMA, cs)
          else if c = QUOTE then
            (case lex_string cs of None \<Rightarrow> None | Some (str, rest) \<Rightarrow> Some (TStr str, rest))
          else if c = ch CHR ''n'' then lex_word ''null'' TNull s
          else if c = ch CHR ''t'' then lex_word ''true'' TTrue s
          else if c = ch CHR ''f'' then lex_word ''false'' TFalse s
          else
            (case lex_number s of
               None \<Rightarrow> None
             | Some ((m, e), rest) \<Rightarrow> Some (TNum m e, rest)))"


text \<open>Every token consumes at least one code unit, so that the tokenizer terminates.\<close>

lemma prepend_Some: "prepend c r = Some (x, rest) \<Longrightarrow> \<exists>y. r = Some (y, rest)"
  by (auto simp: prepend_def split: option.splits)

lemma lex_string_shorter: "lex_string s = Some (x, rest) \<Longrightarrow> length rest < length s"
proof (induction s arbitrary: x rest rule: lex_string.induct)
  case 1
  then show ?case by simp
next
  case (2 c cs)
  show ?case
    using "2.prems" "2.IH"
    by (fastforce split: if_splits list.splits option.splits dest!: prepend_Some)
qed

lemma dropWhile_shorter: "takeWhile P xs \<noteq> [] \<Longrightarrow> length (dropWhile P xs) < length xs"
  by (cases xs) (auto simp: le_imp_less_Suc length_dropWhile_le split: if_splits)

lemma lex_sign_le: "lex_sign s = (b, r) \<Longrightarrow> length r \<le> length s"
  by (auto simp: lex_sign_def split: list.splits if_splits)

lemma lex_int_shorter: "lex_int s = Some (ip, r) \<Longrightarrow> length r < length s"
  by (auto simp: lex_int_def Let_def dropWhile_shorter split: if_splits)

lemma lex_frac_le: "lex_frac s = Some (fd, r) \<Longrightarrow> length r \<le> length s"
  by (auto simp: lex_frac_def Let_def le_SucI length_dropWhile_le split: list.splits if_splits)

lemma lex_exp_sign_le: "lex_exp_sign s = (b, r) \<Longrightarrow> length r \<le> length s"
  by (auto simp: lex_exp_sign_def split: list.splits if_splits)

lemma lex_exp_le:
  assumes "lex_exp s = Some (x, r)"
  shows "length r \<le> length s"
proof (cases s)
  case Nil
  with assms show ?thesis by (simp add: lex_exp_def)
next
  case (Cons c cs)
  show ?thesis
  proof (cases "c = ch CHR ''e'' \<or> c = ch CHR ''E''")
    case False
    with assms Cons show ?thesis by (simp add: lex_exp_def)
  next
    case True
    obtain b s' where sg: "lex_exp_sign cs = (b, s')" by (cases "lex_exp_sign cs")
    from assms Cons True sg have "r = dropWhile is_digit s'"
      by (auto simp: lex_exp_def Let_def split: if_splits)
    moreover have "length (dropWhile is_digit s') \<le> length s'" by (rule length_dropWhile_le)
    moreover have "length s' \<le> length cs" using sg by (rule lex_exp_sign_le)
    ultimately show ?thesis using Cons by simp
  qed
qed

lemma lex_number_shorter:
  assumes "lex_number s = Some (x, rest)"
  shows "length rest < length s"
proof -
  obtain neg s1 where sg: "lex_sign s = (neg, s1)" by (cases "lex_sign s")
  from assms sg obtain ip s2 where ip: "lex_int s1 = Some (ip, s2)"
    by (auto simp: lex_number_def split: option.splits)
  from assms sg ip obtain fd s3 where fd: "lex_frac s2 = Some (fd, s3)"
    by (auto simp: lex_number_def split: option.splits)
  from assms sg ip fd obtain e where ex: "lex_exp s3 = Some (e, rest)"
    by (auto simp: lex_number_def split: option.splits)
  have "length s1 \<le> length s" using sg by (rule lex_sign_le)
  moreover have "length s2 < length s1" using ip by (rule lex_int_shorter)
  moreover have "length s3 \<le> length s2" using fd by (rule lex_frac_le)
  moreover have "length rest \<le> length s3" using ex by (rule lex_exp_le)
  ultimately show ?thesis by simp
qed

lemma lex_word_shorter: "lex_word w t s = Some (x, rest) \<Longrightarrow> w \<noteq> [] \<Longrightarrow> length rest < length s"
  by (cases w; cases s) (auto simp: lex_word_def js_def split: if_splits)

lemma lex_token_shorter: "lex_token s = Some (t, rest) \<Longrightarrow> length rest < length s"
  by (auto simp: lex_token_def split: list.splits if_splits option.splits
           dest: lex_string_shorter lex_number_shorter lex_word_shorter less_SucI)

function lex :: "jstring \<Rightarrow> token list option" where
  "lex s =
     (let s' = dropWhile is_ws s
      in if s' = [] then Some []
         else
           (case lex_token s' of
              None \<Rightarrow> None
            | Some (t, rest) \<Rightarrow>
                (case lex rest of None \<Rightarrow> None | Some ts \<Rightarrow> Some (t # ts))))"
  by pat_completeness auto
termination
proof (relation "measure length")
  fix s s' x t rest
  assume "s' = dropWhile is_ws s" and "lex_token s' = Some x" and "(t, rest) = x"
  then have "length rest < length s'" using lex_token_shorter by metis
  moreover have "length (dropWhile is_ws s) \<le> length s" by (rule length_dropWhile_le)
  ultimately show "(rest, s) \<in> measure length" using \<open>s' = dropWhile is_ws s\<close> by simp
qed simp

declare lex.simps [simp del]

subsection \<open>\<^verbatim>\<open>JSON.parse\<close>: values\<close>

text \<open>
  The tokens are read by a pushdown automaton: one step for each token, a stack of the arrays
  and objects under construction.  A property is added to an object as \<^verbatim>\<open>CreateDataProperty\<close>
  does: a repeated key keeps its first position and takes the last value.  (The engine lists
  integer-like keys first; this order is not modelled, it is invisible to property access.)
\<close>

datatype frame =
    FArr "jsval list"
  | FObj "(jstring \<times> jsval) list"
  | FKey "(jstring \<times> jsval) list" jstring

datatype expect = EValue | EValueOrEnd | EKeyOrEnd | EKey | EColon | ESep

datatype pstate = Run expect "frame list" | Done jsval

fun deliver :: "jsval \<Rightarrow> frame list \<Rightarrow> pstate option" where
  "deliver v [] = Some (Done v)"
| "deliver v (FArr xs # st) = Some (Run ESep (FArr (xs @ [v]) # st))"
| "deliver v (FKey ms k # st) = Some (Run ESep (FObj (AList.update k v ms) # st))"
| "deliver v (FObj ms # st) = None"

fun begin_value :: "token \<Rightarrow> frame list \<Rightarrow> pstate option" where
  "begin_value TNull st = deliver JNull st"
| "begin_value TTrue st = deliver (JBool True) st"
| "begin_value TFalse st = deliver (JBool False) st"
| "begin_value (TNum m e) st = deliver (JNum m e) st"
| "begin_value (TStr s) st = deliver (JStr s) st"
| "begin_value LBRACK st = Some (Run EValueOrEnd (FArr [] # st))"
| "begin_value LBRACE st = Some (Run EKeyOrEnd (FObj [] # st))"
| "begin_value _ st = None"

fun begin_key :: "token \<Rightarrow> frame list \<Rightarrow> pstate option" where
  "begin_key (TStr k) (FObj ms # st) = Some (Run EColon (FKey ms k # st))"
| "begin_key _ _ = None"

fun close_array :: "frame list \<Rightarrow> pstate option" where
  "close_array (FArr xs # st) = deliver (JArr xs) st"
| "close_array _ = None"

fun close_object :: "frame list \<Rightarrow> pstate option" where
  "close_object (FObj ms # st) = deliver (JObj ms) st"
| "close_object _ = None"

fun next_item :: "frame list \<Rightarrow> pstate option" where
  "next_item (FArr xs # st) = Some (Run EValue (FArr xs # st))"
| "next_item (FObj ms # st) = Some (Run EKey (FObj ms # st))"
| "next_item _ = None"

fun step :: "pstate \<Rightarrow> token \<Rightarrow> pstate option" where
  "step (Done v) t = None"
| "step (Run EValue st) t = begin_value t st"
| "step (Run EValueOrEnd st) t = (if t = RBRACK then close_array st else begin_value t st)"
| "step (Run EKeyOrEnd st) t = (if t = RBRACE then close_object st else begin_key t st)"
| "step (Run EKey st) t = begin_key t st"
| "step (Run EColon st) t = (if t = COLON then Some (Run EValue st) else None)"
| "step (Run ESep st) t =
     (if t = COMMA then next_item st
      else if t = RBRACK then close_array st
      else if t = RBRACE then close_object st
      else None)"

fun run :: "pstate \<Rightarrow> token list \<Rightarrow> jsval option" where
  "run (Done v) [] = Some v"
| "run (Run e st) [] = None"
| "run s (t # ts) = (case step s t of None \<Rightarrow> None | Some s' \<Rightarrow> run s' ts)"

definition JSON_parse :: "jstring \<Rightarrow> jsval option" where
  "JSON_parse s = (case lex s of None \<Rightarrow> None | Some ts \<Rightarrow> run (Run EValue []) ts)"

definition JSON_stringify :: "jsval \<Rightarrow> jstring" where
  "JSON_stringify v = stringify v"


section \<open>The platform: \<^verbatim>\<open>localStorage\<close>\<close>

text \<open>
  The exceptions that reach the services: \<^verbatim>\<open>setItem\<close> throws a \<^verbatim>\<open>QuotaExceededError\<close> when
  the new value cannot be stored, \<^verbatim>\<open>JSON.parse\<close> throws a \<^verbatim>\<open>SyntaxError\<close>, and reading a
  property of \<^verbatim>\<open>null\<close> or calling a method that a value does not have throws a
  \<^verbatim>\<open>TypeError\<close>.

  A storage area is its key/value pairs and a quota on their total length; a write that
  would exceed the quota is rejected and changes nothing.  A quota of \<open>0\<close> is a store that
  rejects every write (storage disabled, as in some private browsing modes).
\<close>

datatype error = QuotaExceededError | SyntaxError | TypeError

record storage =
  items :: "(jstring \<times> jstring) list"
  quota :: nat

definition used :: "(jstring \<times> jstring) list \<Rightarrow> nat" where
  "used its = sum_list (map (\<lambda>(k, v). length k + length v) its)"

definition getItem :: "jstring \<Rightarrow> storage \<Rightarrow> jstring option" where
  "getItem k s = map_of (items s) k"

definition setItem :: "jstring \<Rightarrow> jstring \<Rightarrow> storage \<Rightarrow> error + storage" where
  "setItem k v s =
     (let its = AList.update k v (items s)
      in if quota s < used its then Inl QuotaExceededError
         else Inr (s\<lparr>items := its\<rparr>))"

section \<open>Data model\<close>

text \<open>
  The interfaces \<^verbatim>\<open>Post\<close> and \<^verbatim>\<open>Favorite\<close>.  Their \<^verbatim>\<open>number\<close> fields hold integers
  (ids of the remote posts, milliseconds from \<^verbatim>\<open>Date.now()\<close>).  The fields are prefixed
  where the two interfaces share a name.  \<open>fav_json\<close> is a \<^verbatim>\<open>Favorite\<close> as the object the
  code builds, with its properties in the order of the object literal in \<^verbatim>\<open>addFavorite\<close>.
\<close>

record post =
  userId :: int
  post_id :: int
  post_title :: jstring
  body :: jstring

record favorite =
  fav_id :: int
  fav_title :: jstring
  timestamp :: int

definition fav_json :: "favorite \<Rightarrow> jsval" where
  "fav_json f =
     JObj [(js ''id'', JNum (fav_id f) 0),
           (js ''title'', JStr (fav_title f)),
           (js ''timestamp'', JNum (timestamp f) 0)]"

definition favs_json :: "favorite list \<Rightarrow> jsval" where
  "favs_json fs = JArr (map fav_json fs)"

text \<open>The type \<^verbatim>\<open>Theme = 'light' | 'dark'\<close> and the string of each value.\<close>

datatype theme = Light | Dark

definition theme_str :: "theme \<Rightarrow> jstring" where
  "theme_str t = (case t of Light \<Rightarrow> js ''light'' | Dark \<Rightarrow> js ''dark'')"

definition STORAGE_KEY :: jstring where
  "STORAGE_KEY = js ''explorador-favoritos''"

definition THEME_KEY :: jstring where
  "THEME_KEY = js ''explorador-tema''"

section \<open>The theme service\<close>

text \<open>
  The state of \<^verbatim>\<open>createThemeService\<close>: the storage area, what \<^verbatim>\<open>window.matchMedia\<close> answers
  to \<^verbatim>\<open>(prefers-color-scheme: dark)\<close> (\<open>None\<close> when the browser has no \<^verbatim>\<open>matchMedia\<close>), the
  variable \<^verbatim>\<open>currentTheme\<close>, the \<^verbatim>\<open>data-theme\<close> attribute of the document, the registered
  listeners in registration order and the calls made to them.  Listeners are taken to
  return normally.  \<^verbatim>\<open>setTheme\<close> does not catch: when \<^verbatim>\<open>setItem\<close> throws, the exception
  leaves \<^verbatim>\<open>setTheme\<close> after the assignment to \<^verbatim>\<open>currentTheme\<close> and before the rest.
\<close>

record theme_service =
  theme_storage :: storage
  matchMedia :: "bool option"
  currentTheme :: theme
  data_theme :: "theme option"
  theme_listeners :: "nat list"
  theme_calls :: "(nat \<times> theme) list"

definition getSystemTheme :: "bool option \<Rightarrow> theme" where
  "getSystemTheme mm = (case mm of Some True \<Rightarrow> Dark | _ \<Rightarrow> Light)"

definition getSavedTheme :: "jstring \<Rightarrow> storage \<Rightarrow> theme option" where
  "getSavedTheme themeKey ls =
     (case getItem themeKey ls of
        None \<Rightarrow> None
      | Some savedTheme \<Rightarrow>
          if savedTheme = js ''dark'' then Some Dark
          else if savedTheme = js ''light'' then Some Light
          else None)"

definition applyTheme :: "theme \<Rightarrow> theme_service \<Rightarrow> theme_service" where
  "applyTheme t s = s\<lparr>data_theme := Some t\<rparr>"

definition createThemeService :: "jstring \<Rightarrow> storage \<Rightarrow> bool option \<Rightarrow> theme_service" where
  "createThemeService themeKey ls mm =
     (let initial = (case getSavedTheme themeKey ls of
                       Some t \<Rightarrow> t
                     | None \<Rightarrow> getSystemTheme mm)
      in applyTheme initial
           \<lparr>theme_storage = ls, matchMedia = mm, currentTheme = initial,
            data_theme = None, theme_listeners = [], theme_calls = []\<rparr>)"

definition setTheme :: "jstring \<Rightarrow> theme \<Rightarrow> theme_service \<Rightarrow> (error + unit) \<times> theme_service" where
  "setTheme themeKey t s =
     (let s1 = s\<lparr>currentTheme := t\<rparr>
      in case setItem themeKey (theme_str t) (theme_storage s1) of
           Inl e \<Rightarrow> (Inl e, s1)
         | Inr ls \<Rightarrow>
             (Inr (),
              (applyTheme t (s1\<lparr>theme_storage := ls\<rparr>))
                \<lparr>theme_calls := theme_calls s1 @ map (\<lambda>l. (l, t)) (theme_listeners s1)\<rparr>))"

definition onSystemThemeChange ::
  "jstring \<Rightarrow> bool option \<Rightarrow> theme_service \<Rightarrow> (error + unit) \<times> theme_service" where
  "onSystemThemeChange themeKey mm s =
     (let s1 = s\<lparr>matchMedia := mm\<rparr>
      in case getSavedTheme themeKey (theme_storage s1) of
           None \<Rightarrow> setTheme themeKey (getSystemTheme mm) s1
         | Some t \<Rightarrow> (Inr (), s1))"

definition toggleTheme :: "jstring \<Rightarrow> theme_service \<Rightarrow> (error + unit) \<times> theme_service" where
  "toggleTheme themeKey s = setTheme themeKey (if currentTheme s = Dark then Light else Dark) s"

section \<open>The favorites service\<close>

text \<open>
  The state of \<^verbatim>\<open>createFavoritesService\<close>: the storage area, the set of listeners in
  registration order, the calls made to them (listener and argument, oldest first) and what
  was written with \<^verbatim>\<open>console.error\<close>.  Listeners are taken to return normally and not to
  call the service.  \<^verbatim>\<open>Date.now()\<close> is the argument \<open>now\<close> of \<open>addFavorite\<close>.

  \<^verbatim>\<open>getFavorites\<close> is typed \<^verbatim>\<open>Favorite[]\<close> but returns whatever \<^verbatim>\<open>JSON.parse\<close> returns, so
  the model returns a value of any shape, and \<open>addFavorite\<close> and \<open>removeFavorite\<close> raise the
  \<^verbatim>\<open>TypeError\<close> of \<^verbatim>\<open>favorites.some\<close>, \<^verbatim>\<open>favorites.filter\<close> and \<^verbatim>\<open>fav.id\<close> on the values
  that have no such method or property.
\<close>

record favorites_service =
  localStorage :: storage
  listeners :: "nat list"
  calls :: "(nat \<times> jsval) list"
  console :: "(jstring \<times> error) list"

definition getFavorites :: "jstring \<Rightarrow> favorites_service \<Rightarrow> jsval \<times> favorites_service" where
  "getFavorites storageKey s =
     (case getItem storageKey (localStorage s) of
        None \<Rightarrow> (JArr [], s)
      | Some stored \<Rightarrow>
          if stored = [] then (JArr [], s)
          else
            (case JSON_parse stored of
               Some v \<Rightarrow> (v, s)
             | None \<Rightarrow>
                 (JArr [], s\<lparr>console := console s @ [(js ''Erro ao ler favoritos:'', SyntaxError)]\<rparr>)))"

definition writeFavorites :: "jstring \<Rightarrow> jsval \<Rightarrow> favorites_service \<Rightarrow> favorites_service" where
  "writeFavorites storageKey favorites s =
     (case setItem storageKey (JSON_stringify favorites) (localStorage s) of
        Inr ls \<Rightarrow>
          s\<lparr>localStorage := ls,
            calls := calls s @ map (\<lambda>listener. (listener, favorites)) (listeners s)\<rparr>
      | Inl e \<Rightarrow> s\<lparr>console := console s @ [(js ''Erro ao salvar favoritos:'', e)]\<rparr>)"

text \<open>
  \<^verbatim>\<open>fav.id\<close>: the property of an object, \<^verbatim>\<open>undefined\<close> (\<open>None\<close>) on the other values,
  a \<^verbatim>\<open>TypeError\<close> on \<^verbatim>\<open>null\<close>.  \<^verbatim>\<open>fav.id === post.id\<close> holds when the property is a
  number of the same value.
\<close>

definition get_id :: "jsval \<Rightarrow> error + jsval option" where
  "get_id fav =
     (case fav of
        JNull \<Rightarrow> Inl TypeError
      | JObj ms \<Rightarrow> Inr (map_of ms (js ''id''))
      | _ \<Rightarrow> Inr None)"

definition strict_eq_num :: "jsval option \<Rightarrow> int \<Rightarrow> bool" where
  "strict_eq_num v n =
     (case v of
        Some (JNum m e) \<Rightarrow> (if 0 \<le> e then m * 10 ^ nat e = n else m = n * 10 ^ nat (- e))
      | _ \<Rightarrow> False)"

fun some_id :: "int \<Rightarrow> jsval list \<Rightarrow> error + bool" where
  "some_id i [] = Inr False"
| "some_id i (fav # favs) =
     (case get_id fav of
        Inl e \<Rightarrow> Inl e
      | Inr v \<Rightarrow> if strict_eq_num v i then Inr True else some_id i favs)"

fun filter_id :: "int \<Rightarrow> jsval list \<Rightarrow> error + jsval list" where
  "filter_id i [] = Inr []"
| "filter_id i (fav # favs) =
     (case get_id fav of
        Inl e \<Rightarrow> Inl e
      | Inr v \<Rightarrow>
          (case filter_id i favs of
             Inl e \<Rightarrow> Inl e
           | Inr kept \<Rightarrow> Inr (if \<not> strict_eq_num v i then fav # kept else kept)))"

definition addFavorite ::
  "jstring \<Rightarrow> post \<Rightarrow> int \<Rightarrow> favorites_service \<Rightarrow> (error + bool) \<times> favorites_service" where
  "addFavorite storageKey p now s =
     (case getFavorites storageKey s of
        (JArr favorites, s1) \<Rightarrow>
          (case some_id (post_id p) favorites of
             Inl e \<Rightarrow> (Inl e, s1)
           | Inr alreadyExists \<Rightarrow>
               if alreadyExists then (Inr False, s1)
               else
                 let newFavorite = JObj [(js ''id'', JNum (post_id p) 0),
                                         (js ''title'', JStr (post_title p)),
                                         (js ''timestamp'', JNum now 0)]
                 in (Inr True, writeFavorites storageKey (JArr (newFavorite # favorites)) s1))
      | (_, s1) \<Rightarrow> (Inl TypeError, s1))"

definition removeFavorite ::
  "jstring \<Rightarrow> int \<Rightarrow> favorites_service \<Rightarrow> (error + unit) \<times> favorites_service" where
  "removeFavorite storageKey i s =
     (case getFavorites storageKey s of
        (JArr favorites, s1) \<Rightarrow>
          (case filter_id i favorites of
             Inl e \<Rightarrow> (Inl e, s1)
           | Inr filtered \<Rightarrow> (Inr (), writeFavorites storageKey (JArr filtered) s1))
      | (_, s1) \<Rightarrow> (Inl TypeError, s1))"

definition clearAllFavorites :: "jstring \<Rightarrow> favorites_service \<Rightarrow> favorites_service" where
  "clearAllFavorites storageKey s = writeFavorites storageKey (JArr []) s"

definition onChange :: "nat \<Rightarrow> favorites_service \<Rightarrow> favorites_service" where
  "onChange listener s =
     (if listener \<in> set (listeners s) then s
      else s\<lparr>listeners := listeners s @ [listener]\<rparr>)"

definition unsubscribe :: "nat \<Rightarrow> favorites_service \<Rightarrow> favorites_service" where
  "unsubscribe listener s = s\<lparr>listeners := removeAll listener (listeners s)\<rparr>"


section \<open>Notions used in the statements\<close>

text \<open>
  \<open>write_accepted\<close>: the store takes the text of this value under this key.
  \<open>new_favorite\<close>: the record that \<open>addFavorite\<close> builds.  \<open>run_ops\<close> and \<open>add_all\<close> run
  a sequence of calls, each on the state the previous one left.
\<close>

definition write_accepted :: "jstring \<Rightarrow> jsval \<Rightarrow> favorites_service \<Rightarrow> bool" where
  "write_accepted storageKey v s =
     (case setItem storageKey (JSON_stringify v) (localStorage s) of
        Inr ls \<Rightarrow> True
      | Inl e \<Rightarrow> False)"

definition new_favorite :: "post \<Rightarrow> int \<Rightarrow> favorite" where
  "new_favorite p now = \<lparr>fav_id = post_id p, fav_title = post_title p, timestamp = now\<rparr>"

datatype op = Add post int | Remove int | Clear

fun apply_op :: "jstring \<Rightarrow> favorites_service \<Rightarrow> op \<Rightarrow> favorites_service" where
  "apply_op k s (Add p now) = snd (addFavorite k p now s)"
| "apply_op k s (Remove i) = snd (removeFavorite k i s)"
| "apply_op k s Clear = clearAllFavorites k s"

definition run_ops :: "jstring \<Rightarrow> op list \<Rightarrow> favorites_service \<Rightarrow> favorites_service" where
  "run_ops k ops s = foldl (apply_op k) s ops"

fun add_all :: "jstring \<Rightarrow> (post \<times> int) list \<Rightarrow> favorites_service \<Rightarrow> favorites_service" where
  "add_all k [] s = s"
| "add_all k ((p, now) # rest) s = add_all k rest (snd (addFavorite k p now s))"

definition unique_favorites :: "jstring \<Rightarrow> favorites_service \<Rightarrow> bool" where
  "unique_favorites k s = (\<exists>fs. fst (getFavorites k s) = favs_json fs \<and> distinct (map fav_id fs))"

text \<open>The tokens of a serialised favorite, and of a comma-separated sequence of them.\<close>

definition fav_tokens :: "favorite \<Rightarrow> token list" where
  "fav_tokens f =
     [LBRACE, TStr (js ''id''), COLON, TNum (fav_id f) 0, COMMA,
      TStr (js ''title''), COLON, TStr (fav_title f), COMMA,
      TStr (js ''timestamp''), COLON, TNum (timestamp f) 0, RBRACE]"

fun items_tokens :: "favorite list \<Rightarrow> token list" where
  "items_tokens [] = []"
| "items_tokens [f] = fav_tokens f"
| "items_tokens (f # g # fs) = fav_tokens f @ COMMA # items_tokens (g # fs)"

text \<open>
  Sample states: a store that rejects every write, an empty store with room, and a store
  holding a given text under the favorites key; each with one listener, number \<open>0\<close>.
\<close>

definition no_storage :: favorites_service where
  "no_storage = \<lparr>localStorage = \<lparr>items = [], quota = 0\<rparr>, listeners = [0], calls = [], console = []\<rparr>"

definition fresh :: favorites_service where
  "fresh = \<lparr>localStorage = \<lparr>items = [], quota = 5000\<rparr>, listeners = [0], calls = [], console = []\<rparr>"

definition tokyo :: post where
  "tokyo = \<lparr>userId = 1, post_id = 7, post_title = js ''Tokyo'', body = js ''a''\<rparr>"

definition paris :: post where
  "paris = \<lparr>userId = 1, post_id = 42, post_title = js ''Paris'', body = js ''b''\<rparr>"

definition with_stored :: "jstring \<Rightarrow> favorites_service" where
  "with_stored stored =
     \<lparr>localStorage = \<lparr>items = [(STORAGE_KEY, stored)], quota = 5000\<rparr>,
      listeners = [0], calls = [], console = []\<rparr>"

definition qs :: "string \<Rightarrow> jstring" where
  "qs s = QUOTE # js s @ [QUOTE]"

definition two_saved :: favorites_service where
  "two_saved =
     with_stored
       (js ''[{'' @ qs ''id'' @ js '':42,'' @ qs ''title'' @ js '':'' @ qs ''Paris'' @ js '','' @
        qs ''timestamp'' @ js '':101},{'' @ qs ''id'' @ js '':7,'' @ qs ''title'' @ js '':'' @
        qs ''Tokyo'' @ js '','' @ qs ''timestamp'' @ js '':100}]'')"


section \<open>Reading back what \<^verbatim>\<open>JSON.stringify\<close> wrote\<close>

subsection \<open>Numbers\<close>

text \<open>
  The decimal digits of an integer are read back as that integer, with exponent \<open>0\<close>,
  whenever what follows does not continue the numeral.
\<close>

lemma unat_of_nat16: "n < 65536 \<Longrightarrow> unat (of_nat n :: char16) = n"
proof -
  assume "n < 65536"
  have "unat (of_nat n :: char16) = n mod 2 ^ LENGTH(16)" by (rule unat_of_nat)
  with \<open>n < 65536\<close> show ?thesis by simp
qed

lemma unat_digit: "d < 10 \<Longrightarrow> unat (digit d) = 48 + d"
  unfolding digit_def by (rule unat_of_nat16) simp

lemma is_digit_digit: "d < 10 \<Longrightarrow> is_digit (digit d)"
  by (simp add: is_digit_def word_le_nat_alt unat_digit)

lemma digits_nonempty: "digits n \<noteq> []"
  by (subst digits.simps) simp

lemma digits_all_digit: "\<forall>c \<in> set (digits n). is_digit c"
proof (induction n rule: digits.induct)
  case (1 n)
  show ?case
  proof (cases "n < 10")
    case True
    then show ?thesis by (subst digits.simps) (simp add: is_digit_digit)
  next
    case False
    then show ?thesis using 1 by (subst digits.simps) (simp add: is_digit_digit)
  qed
qed

lemma digits_val_snoc: "digits_val (ds @ [c]) = 10 * digits_val ds + (unat c - 48)"
  by (simp add: digits_val_def)

lemma digits_val_digits: "digits_val (digits n) = n"
proof (induction n rule: digits.induct)
  case (1 n)
  show ?case
  proof (cases "n < 10")
    case True
    then show ?thesis by (subst digits.simps) (simp add: digits_val_def unat_digit)
  next
    case False
    then have "digits_val (digits n) = 10 * digits_val (digits (n div 10)) + (unat (digit (n mod 10)) - 48)"
      by (subst digits.simps) (simp add: digits_val_snoc)
    also have "\<dots> = 10 * (n div 10) + n mod 10"
      using 1 False by (simp add: unat_digit)
    finally show ?thesis by simp
  qed
qed

lemma hd_digits_zero: "hd (digits n) = digit 0 \<Longrightarrow> n = 0"
proof (induction n rule: digits.induct)
  case (1 n)
  show ?case
  proof (cases "n < 10")
    case True
    then have "digits n = [digit n]" by (subst digits.simps) simp
    with "1.prems" have "unat (digit n) = unat (digit 0)" by simp
    with True show ?thesis by (simp add: unat_digit)
  next
    case False
    then have "hd (digits n) = hd (digits (n div 10))"
      by (subst digits.simps) (simp add: digits_nonempty)
    with 1 False have "n div 10 = 0" by simp
    with False show ?thesis by simp
  qed
qed

lemma digits_leading_zero: "hd (digits n) = digit 0 \<Longrightarrow> tl (digits n) = []"
proof -
  assume "hd (digits n) = digit 0"
  then have "n = 0" by (rule hd_digits_zero)
  then show ?thesis by (subst digits.simps) simp
qed

lemma takeWhile_digits: "num_end rest \<Longrightarrow> takeWhile is_digit (digits n @ rest) = digits n"
  using digits_all_digit [of n]
  by (cases rest) (auto simp: num_end_def takeWhile_append)

lemma dropWhile_digits: "num_end rest \<Longrightarrow> dropWhile is_digit (digits n @ rest) = rest"
  using digits_all_digit [of n]
  by (cases rest) (auto simp: num_end_def dropWhile_append)

lemma digit_0: "digit 0 = ch CHR ''0''"
  by (simp add: digit_def ch_def)

lemma lex_int_digits: "num_end rest \<Longrightarrow> lex_int (digits n @ rest) = Some (digits n, rest)"
  using digits_leading_zero [of n]
  by (auto simp: lex_int_def Let_def takeWhile_digits dropWhile_digits digits_nonempty digit_0)

lemma lex_frac_none: "num_end rest \<Longrightarrow> lex_frac rest = Some ([], rest)"
  by (auto simp: lex_frac_def num_end_def split: list.splits)

lemma lex_exp_none: "num_end rest \<Longrightarrow> lex_exp rest = Some (0, rest)"
  by (auto simp: lex_exp_def num_end_def split: list.splits)

lemma minus_not_digit: "\<not> is_digit (ch CHR ''-'')"
  by (simp add: is_digit_def ch_def)

lemma hd_digits_not_minus: "hd (digits n) \<noteq> ch CHR ''-''"
  using digits_all_digit [of n] digits_nonempty [of n] minus_not_digit
  by (cases "digits n") auto

lemma lex_sign_digits: "lex_sign (digits n @ rest) = (False, digits n @ rest)"
  using hd_digits_not_minus [of n] digits_nonempty [of n]
  by (cases "digits n") (auto simp: lex_sign_def)

lemma lex_sign_minus: "lex_sign (ch CHR ''-'' # s) = (True, s)"
  by (simp add: lex_sign_def)

lemma lex_number_show_int:
  assumes "num_end rest"
  shows "lex_number (show_int i @ rest) = Some ((i, 0), rest)"
proof (cases "i < 0")
  case True
  then show ?thesis
    using assms
    by (simp add: show_int_def lex_number_def lex_sign_minus lex_int_digits lex_frac_none
          lex_exp_none digits_val_digits)
next
  case False
  then show ?thesis
    using assms
    by (simp add: show_int_def lex_number_def lex_sign_digits lex_int_digits lex_frac_none
          lex_exp_none digits_val_digits)
qed

subsection \<open>Strings\<close>

text \<open>
  A quoted string is read back as the string: every escape that \<open>quote_char\<close> writes is one
  that \<open>lex_string\<close> reads, and what is written literally is no quote, no backslash and
  no control character.
\<close>

lemma hex_val_hex_digit: "d < 16 \<Longrightarrow> hex_val (hex_digit d) = Some d"
proof (cases "d < 10")
  case True
  then have u: "unat (of_nat (48 + d) :: char16) = 48 + d" by (intro unat_of_nat16) simp
  show ?thesis
    using True by (simp only: hex_digit_def hex_val_def word_le_nat_alt u if_True) simp
next
  case False
  assume "d < 16"
  then have u: "unat (of_nat (87 + d) :: char16) = 87 + d" by (intro unat_of_nat16) simp
  show ?thesis
    using False \<open>d < 16\<close>
    by (simp only: hex_digit_def hex_val_def word_le_nat_alt u if_False) simp
qed

lemma hex4_val_unicode:
  "hex4_val (hex_digit (unat c div 4096)) (hex_digit (unat c div 256 mod 16))
     (hex_digit (unat c div 16 mod 16)) (hex_digit (unat c mod 16)) = Some (c :: char16)"
proof -
  have lt: "unat c < 65536" using unsigned_less [of c] by simp
  then have d3: "unat c div 4096 < 16" by simp
  define n where "n = unat c"
  have m1: "n mod 256 = 16 * (n div 16 mod 16) + n mod 16"
    using mod_mult2_eq [of n 16 16] by simp
  have m2: "n mod 4096 = 256 * (n div 256 mod 16) + n mod 256"
    using mod_mult2_eq [of n 256 16] by simp
  have "n = n div 4096 * 4096 + n mod 4096" by simp
  with m1 m2 have "n div 4096 * 4096 + n div 256 mod 16 * 256 + n div 16 mod 16 * 16
          + n mod 16 = n"
    by linarith
  then have "(of_nat (n div 4096 * 4096 + n div 256 mod 16 * 256 + n div 16 mod 16 * 16
          + n mod 16) :: char16) = c"
    by (simp add: n_def)
  moreover have "hex_val (hex_digit (n div 4096)) = Some (n div 4096)"
    using d3 by (simp only: n_def hex_val_hex_digit)
  moreover have "hex_val (hex_digit (n div 256 mod 16)) = Some (n div 256 mod 16)"
    by (rule hex_val_hex_digit) simp
  moreover have "hex_val (hex_digit (n div 16 mod 16)) = Some (n div 16 mod 16)"
    by (rule hex_val_hex_digit) simp
  moreover have "hex_val (hex_digit (n mod 16)) = Some (n mod 16)"
    by (rule hex_val_hex_digit) simp
  ultimately show ?thesis
    unfolding hex4_val_def n_def by (simp only: prod.case option.case)
qed

lemma lex_string_unicode:
  "lex_string (unicode_escape c @ tail) = prepend c (lex_string tail)"
  using hex4_val_unicode [of c]
  by (simp add: unicode_escape_def Let_def ch_def)

lemma surrogate_literal:
  "is_high c \<or> is_low c \<Longrightarrow> c \<noteq> QUOTE \<and> c \<noteq> BSLASH \<and> \<not> c < 0x20"
  by (auto simp: is_high_def is_low_def word_le_nat_alt word_less_nat_alt)

lemma lex_string_literal:
  "c \<noteq> QUOTE \<Longrightarrow> c \<noteq> BSLASH \<Longrightarrow> \<not> c < 0x20 \<Longrightarrow>
   lex_string (c # tail) = prepend c (lex_string tail)"
  by simp

lemma lex_string_quote_char:
  "lex_string (quote_char c @ tail) = prepend c (lex_string tail)"
proof (cases "c = 0x08 \<or> c = 0x09 \<or> c = 0x0A \<or> c = 0x0C \<or> c = 0x0D \<or> c = QUOTE \<or> c = BSLASH")
  case True
  then show ?thesis
    by (elim disjE) (simp_all add: quote_char_def unescape_def ch_def)
next
  case plain: False
  show ?thesis
  proof (cases "c < 0x20 \<or> is_high c \<or> is_low c")
    case True
    with plain have "quote_char c = unicode_escape c" by (simp add: quote_char_def)
    then show ?thesis by (simp add: lex_string_unicode)
  next
    case False
    with plain have "quote_char c = [c]" by (simp add: quote_char_def)
    with plain False show ?thesis by simp
  qed
qed

lemma lex_string_quote_body:
  "lex_string (quote_body s @ QUOTE # rest) = Some (s, rest)"
proof (induction s rule: quote_body.induct)
  case 1
  show ?case by simp
next
  case (2 c)
  have "lex_string (quote_char c @ QUOTE # rest) = prepend c (lex_string (QUOTE # rest))"
    by (rule lex_string_quote_char)
  then show ?case by (simp add: prepend_def)
next
  case (3 c d ds)
  show ?case
  proof (cases "is_high c \<and> is_low d")
    case True
    then have c: "c \<noteq> QUOTE \<and> c \<noteq> BSLASH \<and> \<not> c < 0x20"
      and d: "d \<noteq> QUOTE \<and> d \<noteq> BSLASH \<and> \<not> d < 0x20"
      using surrogate_literal [of c] surrogate_literal [of d] by simp_all
    have "lex_string (c # d # quote_body ds @ QUOTE # rest)
            = prepend c (lex_string (d # quote_body ds @ QUOTE # rest))"
      using c by (intro lex_string_literal) simp_all
    also have "lex_string (d # quote_body ds @ QUOTE # rest)
            = prepend d (lex_string (quote_body ds @ QUOTE # rest))"
      using d by (intro lex_string_literal) simp_all
    also have "lex_string (quote_body ds @ QUOTE # rest) = Some (ds, rest)"
      using True by (rule "3.IH"(1))
    finally have "lex_string (c # d # quote_body ds @ QUOTE # rest) = Some (c # d # ds, rest)"
      by (simp add: prepend_def)
    moreover have "quote_body (c # d # ds) = c # d # quote_body ds" using True by simp
    ultimately show ?thesis by simp
  next
    case False
    then have qb: "quote_body (c # d # ds) = quote_char c @ quote_body (d # ds)"
      by (simp only: quote_body.simps if_False)
    have ih: "lex_string (quote_body (d # ds) @ QUOTE # rest) = Some (d # ds, rest)"
      using False by (rule "3.IH"(2))
    have "lex_string (quote_char c @ quote_body (d # ds) @ QUOTE # rest)
            = prepend c (lex_string (quote_body (d # ds) @ QUOTE # rest))"
      by (rule lex_string_quote_char)
    then show ?thesis unfolding qb append_assoc ih by (simp add: prepend_def)
  qed
qed

lemma lex_token_quote:
  "lex_token (quote s @ rest) = Some (TStr s, rest)"
  by (simp add: lex_token_def quote_def ch_def lex_string_quote_body)

subsection \<open>The tokens of a serialised collection\<close>

lemma lex_Nil: "lex [] = Some []"
  by (simp add: lex.simps)

lemma lex_token_step:
  assumes "lex_token (c # s) = Some (t, rest)" and "\<not> is_ws c"
  shows "lex (c # s) = map_option (Cons t) (lex rest)"
  using assms by (subst lex.simps) (simp split: option.splits)

lemma lex_punct:
  "lex (ch CHR ''{'' # s) = map_option (Cons LBRACE) (lex s)"
  "lex (ch CHR ''}'' # s) = map_option (Cons RBRACE) (lex s)"
  "lex (ch CHR ''['' # s) = map_option (Cons LBRACK) (lex s)"
  "lex (ch CHR '']'' # s) = map_option (Cons RBRACK) (lex s)"
  "lex (ch CHR '':'' # s) = map_option (Cons COLON) (lex s)"
  "lex (ch CHR '','' # s) = map_option (Cons COMMA) (lex s)"
  by (rule lex_token_step; simp add: lex_token_def is_ws_def ch_def)+

lemma lex_quote: "lex (quote k @ s) = map_option (Cons (TStr k)) (lex s)"
proof -
  have "lex_token (QUOTE # quote_body k @ QUOTE # s) = Some (TStr k, s)"
    using lex_token_quote [of k s] by (simp add: quote_def)
  then have "lex (QUOTE # quote_body k @ QUOTE # s) = map_option (Cons (TStr k)) (lex s)"
    by (rule lex_token_step) (simp add: is_ws_def)
  then show ?thesis by (simp add: quote_def)
qed

lemma number_start:
  assumes "is_digit c \<or> c = ch CHR ''-''"
  shows "\<not> is_ws c" and "lex_token (c # s) = map_option (\<lambda>((m, e), rest). (TNum m e, rest)) (lex_number (c # s))"
proof -
  from assms show "\<not> is_ws c"
    by (auto simp: is_digit_def is_ws_def ch_def)
  from assms have "c \<noteq> ch CHR ''{''" "c \<noteq> ch CHR ''}''" "c \<noteq> ch CHR ''[''" "c \<noteq> ch CHR '']''"
    "c \<noteq> ch CHR '':''" "c \<noteq> ch CHR '',''" "c \<noteq> QUOTE" "c \<noteq> ch CHR ''n''" "c \<noteq> ch CHR ''t''"
    "c \<noteq> ch CHR ''f''"
    by (auto simp: is_digit_def ch_def)
  then show "lex_token (c # s) = map_option (\<lambda>((m, e), rest). (TNum m e, rest)) (lex_number (c # s))"
    by (simp add: lex_token_def split: option.splits)
qed

lemma show_int_start: "\<exists>c cs. show_int i = c # cs \<and> (is_digit c \<or> c = ch CHR ''-'')"
proof (cases "i < 0")
  case True
  then show ?thesis by (simp add: show_int_def)
next
  case False
  obtain c cs where d: "digits (nat i) = c # cs"
    using digits_nonempty [of "nat i"] by (cases "digits (nat i)") auto
  then have "is_digit c" using digits_all_digit [of "nat i"] by simp
  with False d show ?thesis by (simp add: show_int_def)
qed

lemma lex_show_int:
  assumes "num_end s"
  shows "lex (show_int i @ s) = map_option (Cons (TNum i 0)) (lex s)"
proof -
  obtain c cs where c: "show_int i = c # cs" "is_digit c \<or> c = ch CHR ''-''"
    using show_int_start by blast
  have "lex_number (c # cs @ s) = Some ((i, 0), s)"
    using lex_number_show_int [OF assms, of i] c by simp
  then have "lex_token (c # cs @ s) = Some (TNum i 0, s)"
    using number_start(2) [OF c(2), of "cs @ s"] by simp
  then have "lex (c # cs @ s) = map_option (Cons (TNum i 0)) (lex s)"
    using number_start(1) [OF c(2)] by (rule lex_token_step)
  with c show ?thesis by simp
qed

lemma num_end_punct [simp]:
  "num_end (ch CHR '','' # s)" "num_end (ch CHR ''}'' # s)" "num_end (ch CHR '']'' # s)"
  by (simp_all add: num_end_def is_digit_def ch_def)

lemma stringify_fav_json:
  "stringify (fav_json f) =
     ch CHR ''{'' # quote (js ''id'') @ ch CHR '':'' # show_int (fav_id f) @ ch CHR '','' #
     quote (js ''title'') @ ch CHR '':'' # quote (fav_title f) @ ch CHR '','' #
     quote (js ''timestamp'') @ ch CHR '':'' # show_int (timestamp f) @ [ch CHR ''}'']"
  by (simp add: fav_json_def show_num_def)

lemma lex_fav:
  "lex (stringify (fav_json f) @ ch CHR '','' # s)
     = map_option (\<lambda>ts. fav_tokens f @ COMMA # ts) (lex s)"
  "lex (stringify (fav_json f) @ ch CHR '']'' # s)
     = map_option (\<lambda>ts. fav_tokens f @ RBRACK # ts) (lex s)"
  by (cases "lex s";
      simp add: stringify_fav_json lex_punct lex_quote lex_show_int fav_tokens_def)+

lemma lex_items:
  "lex (join_comma (map stringify (map fav_json fs)) @ ch CHR '']'' # s)
     = map_option (\<lambda>ts. items_tokens fs @ RBRACK # ts) (lex s)"
proof (induction fs rule: items_tokens.induct)
  case 1
  show ?case by (simp add: lex_punct)
next
  case (2 f)
  show ?case by (simp add: lex_fav)
next
  case (3 f g fs)
  have "lex (join_comma (map stringify (map fav_json (f # g # fs))) @ ch CHR '']'' # s)
          = lex (stringify (fav_json f) @ ch CHR '','' #
                 (join_comma (map stringify (map fav_json (g # fs))) @ ch CHR '']'' # s))"
    by simp
  also have "\<dots> = map_option (\<lambda>ts. fav_tokens f @ COMMA # ts)
                     (lex (join_comma (map stringify (map fav_json (g # fs))) @ ch CHR '']'' # s))"
    by (rule lex_fav)
  also have "\<dots> = map_option (\<lambda>ts. fav_tokens f @ COMMA # ts)
                     (map_option (\<lambda>ts. items_tokens (g # fs) @ RBRACK # ts) (lex s))"
    by (simp only: 3)
  finally show ?case by (cases "lex s") simp_all
qed

lemma lex_favs_json:
  "lex (stringify (favs_json fs)) = Some (LBRACK # items_tokens fs @ [RBRACK])"
  using lex_items [of fs "[]"]
  by (simp add: favs_json_def lex_punct lex_Nil)

subsection \<open>The value of a serialised collection\<close>

lemma js_key_neq [simp]:
  "js ''id'' \<noteq> js ''title''" "js ''id'' \<noteq> js ''timestamp''" "js ''title'' \<noteq> js ''timestamp''"
  "js ''title'' \<noteq> js ''id''" "js ''timestamp'' \<noteq> js ''id''" "js ''timestamp'' \<noteq> js ''title''"
  by (simp_all add: js_def)

lemma run_fav:
  "run (Run EValue (FArr xs # st)) (fav_tokens f @ ts)
     = run (Run ESep (FArr (xs @ [fav_json f]) # st)) ts"
  by (simp add: fav_tokens_def fav_json_def)

lemma run_items:
  "fs \<noteq> [] \<Longrightarrow>
   run (Run EValue [FArr xs]) (items_tokens fs @ [RBRACK]) = Some (JArr (xs @ map fav_json fs))"
proof (induction fs arbitrary: xs rule: items_tokens.induct)
  case 1
  then show ?case by simp
next
  case (2 f)
  show ?case by (simp add: run_fav)
next
  case (3 f g fs)
  have "run (Run EValue [FArr xs]) (items_tokens (f # g # fs) @ [RBRACK])
          = run (Run ESep [FArr (xs @ [fav_json f])]) (COMMA # items_tokens (g # fs) @ [RBRACK])"
    by (simp add: run_fav)
  also have "\<dots> = run (Run EValue [FArr (xs @ [fav_json f])]) (items_tokens (g # fs) @ [RBRACK])"
    by simp
  also have "\<dots> = Some (JArr ((xs @ [fav_json f]) @ map fav_json (g # fs)))"
    by (rule "3.IH") simp
  finally show ?case by simp
qed

lemma run_first:
  "fs \<noteq> [] \<Longrightarrow>
   run (Run EValueOrEnd [FArr []]) (items_tokens fs @ ts) = run (Run EValue [FArr []]) (items_tokens fs @ ts)"
  by (cases fs rule: items_tokens.cases) (simp_all add: fav_tokens_def)

lemma run_favs:
  "run (Run EValue []) (LBRACK # items_tokens fs @ [RBRACK]) = Some (JArr (map fav_json fs))"
proof (cases "fs = []")
  case True
  then show ?thesis by simp
next
  case False
  have "run (Run EValueOrEnd [FArr []]) (items_tokens fs @ [RBRACK])
          = run (Run EValue [FArr []]) (items_tokens fs @ [RBRACK])"
    using False by (rule run_first)
  also have "\<dots> = Some (JArr ([] @ map fav_json fs))"
    using False by (rule run_items)
  finally show ?thesis by simp
qed

lemma JSON_roundtrip_favs:
  "JSON_parse (JSON_stringify (favs_json fs)) = Some (favs_json fs)"
proof -
  have "JSON_parse (JSON_stringify (favs_json fs))
          = run (Run EValue []) (LBRACK # items_tokens fs @ [RBRACK])"
    by (simp only: JSON_parse_def JSON_stringify_def lex_favs_json option.case)
  also have "\<dots> = Some (JArr (map fav_json fs))" by (rule run_favs)
  finally show ?thesis by (simp only: favs_json_def)
qed

lemma JSON_stringify_favs_nonempty: "JSON_stringify (favs_json fs) \<noteq> []"
  by (simp add: JSON_stringify_def favs_json_def)

text \<open>The parser on some texts: values of every kind, and texts that are not JSON.\<close>

lemma JSON_parse_examples:
  "JSON_parse (js ''[]'') = Some (JArr [])"
  "JSON_parse (js '' [1, -2.50e+3 ,{}] '') = Some (JArr [JNum 1 0, JNum (- 250) 1, JObj []])"
  "JSON_parse (js ''{'' @ qs ''a'' @ js '':null,'' @ qs ''b'' @ js '':[true,false],'' @ qs ''a'' @ js '':'' @ qs ''x'' @ js ''}'')
     = Some (JObj [(js ''a'', JStr (js ''x'')), (js ''b'', JArr [JBool True, JBool False])])"
  "JSON_parse (QUOTE # js ''a'' @ BSLASH # js ''u00e9'' @ BSLASH # js ''n'' @ [QUOTE])
     = Some (JStr [0x61, 0xE9, 0x0A])"
  "JSON_parse (js ''7'') = Some (JNum 7 0)"
  "JSON_parse (js ''not json'') = None"
  "JSON_parse [] = None"
  "JSON_parse (js ''[1,]'') = None"
  "JSON_parse (js ''[1] 2'') = None"
  "JSON_parse (js ''01'') = None"
  "JSON_parse (js ''{'' @ qs ''a'' @ js '' 1}'') = None"
  "JSON_parse (js ''[[]'') = None"
  by code_simp+

section \<open>The favorites service on a stored collection\<close>

text \<open>
  What the operations do when the store holds a collection of favorite records, that is when
  \<open>getFavorites\<close> returns \<open>favs_json fs\<close>; and what a write does, accepted or rejected.
\<close>

lemma getItem_setItem: "setItem k v ls = Inr ls' \<Longrightarrow> getItem k ls' = Some v"
  by (auto simp: setItem_def getItem_def Let_def update_conv' split: if_splits)

lemma writeFavorites_accepted:
  assumes "write_accepted k v s"
  obtains ls where "setItem k (JSON_stringify v) (localStorage s) = Inr ls"
    and "writeFavorites k v s
           = s\<lparr>localStorage := ls, calls := calls s @ map (\<lambda>l. (l, v)) (listeners s)\<rparr>"
  using assms by (auto simp: write_accepted_def writeFavorites_def split: sum.splits)

lemma setItem_error: "setItem k v ls = Inl e \<Longrightarrow> e = QuotaExceededError"
  by (auto simp: setItem_def Let_def split: if_splits)

lemma writeFavorites_rejected:
  assumes "\<not> write_accepted k v s"
  shows "writeFavorites k v s
           = s\<lparr>console := console s @ [(js ''Erro ao salvar favoritos:'', QuotaExceededError)]\<rparr>"
  using assms
  by (auto simp: write_accepted_def writeFavorites_def split: sum.splits dest: setItem_error)

lemma getFavorites_console [simp]:
  "fst (getFavorites k (s\<lparr>console := c\<rparr>)) = fst (getFavorites k s)"
  by (simp add: getFavorites_def split: option.splits)

lemma getFavorites_keeps:
  "localStorage (snd (getFavorites k s)) = localStorage s"
  "listeners (snd (getFavorites k s)) = listeners s"
  "calls (snd (getFavorites k s)) = calls s"
  by (simp_all add: getFavorites_def split: option.splits)

lemma getFavorites_again [simp]:
  "fst (getFavorites k (snd (getFavorites k s))) = fst (getFavorites k s)"
  by (simp add: getFavorites_def split: option.splits)

lemma getFavorites_nonempty_state:
  "fst (getFavorites k s) = favs_json fs \<Longrightarrow> fs \<noteq> [] \<Longrightarrow> snd (getFavorites k s) = s"
  by (auto simp: getFavorites_def favs_json_def split: option.splits if_splits)

lemma write_accepted_getFavorites [simp]:
  "write_accepted k v (snd (getFavorites k s)) = write_accepted k v s"
  by (simp add: write_accepted_def getFavorites_keeps)

lemma getFavorites_written:
  assumes "write_accepted k (favs_json fs) s"
  shows "getFavorites k (writeFavorites k (favs_json fs) s)
           = (favs_json fs, writeFavorites k (favs_json fs) s)"
proof -
  from assms obtain ls where ls: "setItem k (JSON_stringify (favs_json fs)) (localStorage s) = Inr ls"
    and w: "writeFavorites k (favs_json fs) s
           = s\<lparr>localStorage := ls, calls := calls s @ map (\<lambda>l. (l, favs_json fs)) (listeners s)\<rparr>"
    by (rule writeFavorites_accepted)
  have "getItem k ls = Some (JSON_stringify (favs_json fs))" using ls by (rule getItem_setItem)
  then show ?thesis
    unfolding w
    by (simp add: getFavorites_def JSON_roundtrip_favs JSON_stringify_favs_nonempty)
qed

lemma get_id_fav_json [simp]: "get_id (fav_json f) = Inr (Some (JNum (fav_id f) 0))"
  by (simp add: get_id_def fav_json_def)

lemma strict_eq_num_int [simp]: "strict_eq_num (Some (JNum n 0)) i = (n = i)"
  by (simp add: strict_eq_num_def)

lemma some_id_favs: "some_id i (map fav_json fs) = Inr (i \<in> fav_id ` set fs)"
  by (induction fs) auto

lemma filter_id_favs:
  "filter_id i (map fav_json fs) = Inr (map fav_json (filter (\<lambda>f. fav_id f \<noteq> i) fs))"
  by (induction fs) auto

lemma new_favorite_json:
  "JObj [(js ''id'', JNum (post_id p) 0), (js ''title'', JStr (post_title p)),
         (js ''timestamp'', JNum now 0)] = fav_json (new_favorite p now)"
  by (simp add: fav_json_def new_favorite_def)

lemma addFavorite_present:
  assumes "fst (getFavorites k s) = favs_json fs" and "post_id p \<in> fav_id ` set fs"
  shows "addFavorite k p now s = (Inr False, s)"
proof -
  from assms(2) have "fs \<noteq> []" by auto
  with assms(1) have "snd (getFavorites k s) = s" by (rule getFavorites_nonempty_state)
  with assms(1) have "getFavorites k s = (JArr (map fav_json fs), s)"
    by (simp add: favs_json_def prod_eq_iff)
  then show ?thesis using assms(2) by (simp add: addFavorite_def some_id_favs)
qed

lemma addFavorite_absent:
  assumes "fst (getFavorites k s) = favs_json fs" and "post_id p \<notin> fav_id ` set fs"
  shows "addFavorite k p now s
           = (Inr True, writeFavorites k (favs_json (new_favorite p now # fs)) (snd (getFavorites k s)))"
proof -
  obtain s1 where g: "getFavorites k s = (JArr (map fav_json fs), s1)"
    using assms(1) by (cases "getFavorites k s") (simp add: favs_json_def)
  then show ?thesis
    using assms(2)
    by (simp add: addFavorite_def some_id_favs new_favorite_json favs_json_def)
qed

lemma removeFavorite_favs:
  assumes "fst (getFavorites k s) = favs_json fs"
  shows "removeFavorite k i s
           = (Inr (), writeFavorites k (favs_json (filter (\<lambda>f. fav_id f \<noteq> i) fs)) (snd (getFavorites k s)))"
proof -
  obtain s1 where g: "getFavorites k s = (JArr (map fav_json fs), s1)"
    using assms(1) by (cases "getFavorites k s") (simp add: favs_json_def)
  then show ?thesis
    by (simp add: removeFavorite_def filter_id_favs favs_json_def)
qed

text \<open>
  On a stored value of another shape the operations raise or go on as the script does:
  an object has no \<^verbatim>\<open>some\<close>, \<^verbatim>\<open>null\<close> has no \<^verbatim>\<open>id\<close>, a number has an undefined one.
\<close>

lemma addFavorite_on_other_values:
  "fst (addFavorite STORAGE_KEY tokyo 100 (with_stored (js ''{}''))) = Inl TypeError"
  "fst (addFavorite STORAGE_KEY tokyo 100 (with_stored (js ''[null]''))) = Inl TypeError"
  "fst (addFavorite STORAGE_KEY tokyo 100 (with_stored (js ''[1]''))) = Inr True"
  "fst (getFavorites STORAGE_KEY (snd (addFavorite STORAGE_KEY tokyo 100 (with_stored (js ''[1]'')))))
     = JArr [fav_json (new_favorite tokyo 100), JNum 1 0]"
  "fst (addFavorite STORAGE_KEY tokyo 100 (with_stored (js ''[{'' @ qs ''id'' @ js '':0.7e1}]''))) = Inr False"
  by code_simp+

subsection \<open>Uniqueness of ids is preserved\<close>

lemma write_effect:
  "fst (getFavorites k (writeFavorites k (favs_json fs) s))
     = (if write_accepted k (favs_json fs) s then favs_json fs else fst (getFavorites k s))"
  by (simp add: getFavorites_written writeFavorites_rejected)

lemma unique_addFavorite:
  assumes "unique_favorites k s"
  shows "unique_favorites k (snd (addFavorite k p now s))"
proof -
  from assms obtain fs where fs: "fst (getFavorites k s) = favs_json fs" "distinct (map fav_id fs)"
    by (auto simp: unique_favorites_def)
  show ?thesis
  proof (cases "post_id p \<in> fav_id ` set fs")
    case True
    with fs(1) have "addFavorite k p now s = (Inr False, s)" by (rule addFavorite_present)
    with assms show ?thesis by simp
  next
    case False
    with fs(1) have a: "addFavorite k p now s
           = (Inr True, writeFavorites k (favs_json (new_favorite p now # fs)) (snd (getFavorites k s)))"
      by (rule addFavorite_absent)
    have "distinct (map fav_id (new_favorite p now # fs))"
      using False fs(2) by (simp add: new_favorite_def)
    then show ?thesis
      unfolding unique_favorites_def a snd_conv write_effect
      using fs by auto
  qed
qed

lemma unique_removeFavorite:
  assumes "unique_favorites k s"
  shows "unique_favorites k (snd (removeFavorite k i s))"
proof -
  from assms obtain fs where fs: "fst (getFavorites k s) = favs_json fs" "distinct (map fav_id fs)"
    by (auto simp: unique_favorites_def)
  have "distinct (map fav_id (filter (\<lambda>f. fav_id f \<noteq> i) fs))"
    using fs(2) by (rule distinct_map_filter)
  then show ?thesis
    unfolding unique_favorites_def removeFavorite_favs [OF fs(1)] snd_conv write_effect
    using fs by auto
qed

lemma favs_json_Nil: "favs_json [] = JArr []"
  by (simp add: favs_json_def)

lemma unique_clearAllFavorites:
  assumes "unique_favorites k s"
  shows "unique_favorites k (clearAllFavorites k s)"
proof -
  from assms obtain fs where fs: "fst (getFavorites k s) = favs_json fs" "distinct (map fav_id fs)"
    by (auto simp: unique_favorites_def)
  have "distinct (map fav_id [])" by simp
  then show ?thesis
    unfolding unique_favorites_def clearAllFavorites_def favs_json_Nil [symmetric] write_effect
    using fs by auto
qed

lemma unique_run_ops: "unique_favorites k s \<Longrightarrow> unique_favorites k (run_ops k ops s)"
proof (induction ops arbitrary: s)
  case Nil
  then show ?case by (simp add: run_ops_def)
next
  case (Cons a ops)
  have "unique_favorites k (apply_op k s a)"
    using Cons.prems
    by (cases a) (simp_all add: unique_addFavorite unique_removeFavorite unique_clearAllFavorites)
  then have "unique_favorites k (run_ops k ops (apply_op k s a))" by (rule Cons.IH)
  then show ?case by (simp add: run_ops_def)
qed

subsection \<open>Room in the store, sequences of additions\<close>

text \<open>
  A shorter text under the same key fits where a longer one does, and a collection is not
  longer in text than one that extends it to the front; so a store with room for the result
  of a sequence of additions accepts every write on the way.
\<close>

lemma used_update_mono:
  "length v \<le> length v' \<Longrightarrow> used (AList.update k v al) \<le> used (AList.update k v' al)"
  by (induction al) (auto simp: used_def)

lemma join_comma_Cons_length: "length (join_comma xs) \<le> length (join_comma (x # xs))"
  by (cases xs) simp_all

lemma join_comma_append_length: "length (join_comma zs) \<le> length (join_comma (ys @ zs))"
proof (induction ys)
  case Nil
  show ?case by simp
next
  case (Cons y ys)
  have "length (join_comma (ys @ zs)) \<le> length (join_comma (y # ys @ zs))"
    by (rule join_comma_Cons_length)
  with Cons show ?case by simp
qed

lemma stringify_favs_mono:
  "length (JSON_stringify (favs_json zs)) \<le> length (JSON_stringify (favs_json (ys @ zs)))"
  using join_comma_append_length [of "map stringify (map fav_json zs)" "map stringify (map fav_json ys)"]
  by (simp add: JSON_stringify_def favs_json_def)

lemma write_accepted_iff:
  "write_accepted k v s
     \<longleftrightarrow> used (AList.update k (JSON_stringify v) (items (localStorage s))) \<le> quota (localStorage s)"
  by (simp add: write_accepted_def setItem_def Let_def)

lemma write_accepted_mono:
  assumes "write_accepted k (favs_json (ys @ zs)) s"
  shows "write_accepted k (favs_json zs) s"
proof -
  have "used (AList.update k (JSON_stringify (favs_json zs)) (items (localStorage s)))
          \<le> used (AList.update k (JSON_stringify (favs_json (ys @ zs))) (items (localStorage s)))"
    using stringify_favs_mono by (rule used_update_mono)
  with assms show ?thesis by (simp add: write_accepted_iff)
qed

lemma write_accepted_writeFavorites [simp]:
  "write_accepted k v (writeFavorites k w s) = write_accepted k v s"
proof (cases "write_accepted k w s")
  case True
  then obtain ls where ls: "setItem k (JSON_stringify w) (localStorage s) = Inr ls"
    and w: "writeFavorites k w s
           = s\<lparr>localStorage := ls, calls := calls s @ map (\<lambda>l. (l, w)) (listeners s)\<rparr>"
    by (rule writeFavorites_accepted)
  from ls have "items ls = AList.update k (JSON_stringify w) (items (localStorage s))"
    and "quota ls = quota (localStorage s)"
    by (auto simp: setItem_def Let_def split: if_splits)
  then show ?thesis unfolding w by (simp add: write_accepted_iff)
next
  case False
  then show ?thesis by (simp add: writeFavorites_rejected write_accepted_iff)
qed

lemma add_all_general:
  assumes "fst (getFavorites k s) = favs_json fs"
    and "distinct (map (\<lambda>(p, now). post_id p) cs)"
    and "\<forall>(p, now) \<in> set cs. post_id p \<notin> fav_id ` set fs"
    and "write_accepted k (favs_json (rev (map (\<lambda>(p, now). new_favorite p now) cs) @ fs)) s"
  shows "fst (getFavorites k (add_all k cs s))
           = favs_json (rev (map (\<lambda>(p, now). new_favorite p now) cs) @ fs)"
  using assms
proof (induction cs arbitrary: s fs)
  case Nil
  then show ?case by simp
next
  case (Cons c cs)
  obtain p now where c: "c = (p, now)" by (cases c)
  let ?nf = "new_favorite p now"
  let ?s1 = "writeFavorites k (favs_json (?nf # fs)) (snd (getFavorites k s))"
  have absent: "post_id p \<notin> fav_id ` set fs" using Cons.prems(3) c by simp
  with Cons.prems(1) have a: "addFavorite k p now s = (Inr True, ?s1)"
    by (rule addFavorite_absent)
  have acc_all: "write_accepted k
      (favs_json (rev (map (\<lambda>(p, now). new_favorite p now) cs) @ ?nf # fs)) s"
    using Cons.prems(4) c by simp
  then have acc: "write_accepted k (favs_json (?nf # fs)) s" by (rule write_accepted_mono)
  have g: "fst (getFavorites k ?s1) = favs_json (?nf # fs)"
    using acc by (simp add: write_effect)
  have d: "distinct (map (\<lambda>(p, now). post_id p) cs)" using Cons.prems(2) by simp
  have fresh_ids: "\<forall>(q, t) \<in> set cs. post_id q \<notin> fav_id ` set (?nf # fs)"
  proof -
    have "post_id q \<notin> fav_id ` set (?nf # fs)" if qt: "(q, t) \<in> set cs" for q t
    proof -
      have "post_id q \<in> (\<lambda>(p, now). post_id p) ` set cs"
        using qt by (rule rev_image_eqI) simp
      then have "post_id q \<noteq> post_id p" using Cons.prems(2) c by auto
      moreover have "post_id q \<notin> fav_id ` set fs"
        using Cons.prems(3) qt by auto
      ultimately show ?thesis by (simp add: new_favorite_def)
    qed
    then show ?thesis by auto
  qed
  have acc': "write_accepted k
      (favs_json (rev (map (\<lambda>(p, now). new_favorite p now) cs) @ ?nf # fs)) ?s1"
    using acc_all by simp
  have "fst (getFavorites k (add_all k cs ?s1))
          = favs_json (rev (map (\<lambda>(p, now). new_favorite p now) cs) @ ?nf # fs)"
    using g d fresh_ids acc' by (rule Cons.IH)
  then show ?case using a c by simp
qed

lemma fav_json_inj: "fav_json f = fav_json g \<Longrightarrow> f = g"
  by (cases f; cases g) (simp add: fav_json_def)

lemma favs_json_inj: "favs_json fs = favs_json gs \<Longrightarrow> fs = gs"
proof -
  assume "favs_json fs = favs_json gs"
  then have "map fav_json fs = map fav_json gs" by (simp add: favs_json_def)
  moreover have "inj fav_json" by (rule injI) (rule fav_json_inj)
  ultimately show "fs = gs" by (simp add: inj_map_eq_map)
qed

lemma length_filter_distinct:
  "distinct (map fav_id fs) \<Longrightarrow>
   length (filter (\<lambda>f. fav_id f \<noteq> i) fs) = (if i \<in> fav_id ` set fs then length fs - 1 else length fs)"
proof (induction fs)
  case Nil
  show ?case by simp
next
  case (Cons f fs)
  show ?case
  proof (cases "fav_id f = i")
    case True
    then have "i \<notin> fav_id ` set fs" using Cons.prems by auto
    then have "filter (\<lambda>f. fav_id f \<noteq> i) fs = fs" by (auto simp: filter_id_conv)
    with True show ?thesis by simp
  next
    case False
    moreover have "i \<in> fav_id ` set fs \<Longrightarrow> fs \<noteq> []" by auto
    ultimately show ?thesis using Cons by (auto simp: Suc_diff_le Suc_leI)
  qed
qed

lemma setItem_no_quota: "quota ls = 0 \<Longrightarrow> k \<noteq> [] \<Longrightarrow> setItem k v ls = Inl QuotaExceededError"
proof -
  assume q: "quota ls = 0" and k: "k \<noteq> []"
  have "0 < used (AList.update k v al)" for al
    using k by (induction al) (auto simp: used_def)
  with q show ?thesis by (simp add: setItem_def Let_def)
qed

text \<open>
  The sample state \<open>two_saved\<close> holds the text that the service writes when Tokyo and then
  Paris are added to the empty store.
\<close>

lemma two_saved_is_written:
  "two_saved
     = (snd (addFavorite STORAGE_KEY paris 101 (snd (addFavorite STORAGE_KEY tokyo 100 fresh))))
         \<lparr>calls := []\<rparr>"
  by code_simp

section \<open>The claims\<close>

lemma js_dark_light [simp]: "js ''dark'' \<noteq> js ''light''" "js ''light'' \<noteq> js ''dark''"
  by (simp_all add: js_def ch_def)

text \<open>
  \<^bold>\<open>C1\<close> (uniqueness invariant).  Start from a store whose favorites collection is empty and
  run any sequence of \<open>addFavorite\<close>, \<open>removeFavorite\<close> and \<open>clearAllFavorites\<close> calls, each
  with any argument, any clock reading and whether or not the store accepts the write.  The
  collection read back by \<open>getFavorites\<close> is then always an array of favorite records in which
  no two entries share an id.
\<close>

theorem favorites_ids_unique:
  assumes "fst (getFavorites k s0) = JArr []"
  shows "\<exists>fs. fst (getFavorites k (run_ops k ops s0)) = favs_json fs \<and> distinct (map fav_id fs)"
proof -
  have "unique_favorites k s0"
    unfolding unique_favorites_def using assms by (intro exI [of _ "[]"]) (simp add: favs_json_Nil)
  then have "unique_favorites k (run_ops k ops s0)" by (rule unique_run_ops)
  then show ?thesis by (simp add: unique_favorites_def)
qed

theorem favorites_ids_unique_witness:
  "fst (getFavorites STORAGE_KEY fresh) = JArr [] \<and>
   fst (getFavorites STORAGE_KEY
          (run_ops STORAGE_KEY [Add tokyo 100, Add paris 101, Add tokyo 102, Remove 42] fresh))
     = favs_json [new_favorite tokyo 100] \<and>
   (\<exists>fs. fst (getFavorites STORAGE_KEY
             (run_ops STORAGE_KEY [Add tokyo 100, Add paris 101, Add tokyo 102, Remove 42] fresh))
           = favs_json fs
         \<and> distinct (map fav_id fs))"
proof -
  have h: "fst (getFavorites STORAGE_KEY fresh) = JArr []" by code_simp
  have r: "fst (getFavorites STORAGE_KEY
                  (run_ops STORAGE_KEY [Add tokyo 100, Add paris 101, Add tokyo 102, Remove 42] fresh))
             = favs_json [new_favorite tokyo 100]"
    by code_simp
  show ?thesis using h r favorites_ids_unique [OF h] by blast
qed

text \<open>
  \<^bold>\<open>C2\<close> (newest first).  As stated, for every store, the claim fails: \<open>addFavorite\<close> ignores
  a rejected write, so on a store without room nothing is saved.  With room for the resulting
  collection it holds: starting from an empty collection, a sequence of \<open>addFavorite\<close> calls
  with pairwise distinct post ids leaves exactly the new entries, in reverse call order.
\<close>

theorem add_sequence_newest_first:
  assumes "fst (getFavorites k s0) = JArr []"
    and "distinct (map (\<lambda>(p, now). post_id p) cs)"
    and "write_accepted k (favs_json (rev (map (\<lambda>(p, now). new_favorite p now) cs))) s0"
  shows "fst (getFavorites k (add_all k cs s0))
           = favs_json (rev (map (\<lambda>(p, now). new_favorite p now) cs))"
proof -
  have "fst (getFavorites k (add_all k cs s0))
          = favs_json (rev (map (\<lambda>(p, now). new_favorite p now) cs) @ [])"
    using assms by (intro add_all_general) (simp_all add: favs_json_Nil)
  then show ?thesis by simp
qed

theorem add_sequence_newest_first_witness:
  "fst (getFavorites STORAGE_KEY fresh) = JArr [] \<and>
   distinct (map (\<lambda>(p, now). post_id p) [(tokyo, 100), (paris, 101)]) \<and>
   write_accepted STORAGE_KEY
     (favs_json (rev (map (\<lambda>(p, now). new_favorite p now) [(tokyo, 100), (paris, 101)]))) fresh \<and>
   fst (getFavorites STORAGE_KEY (add_all STORAGE_KEY [(tokyo, 100), (paris, 101)] fresh))
     = favs_json [new_favorite paris 101, new_favorite tokyo 100]"
proof -
  have h1: "fst (getFavorites STORAGE_KEY fresh) = JArr []" by code_simp
  have h2: "distinct (map (\<lambda>(p, now). post_id p) [(tokyo, 100), (paris, 101)])" by code_simp
  have h3: "write_accepted STORAGE_KEY
     (favs_json (rev (map (\<lambda>(p, now). new_favorite p now) [(tokyo, 100), (paris, 101)]))) fresh"
    by code_simp
  show ?thesis using h1 h2 h3 add_sequence_newest_first [OF h1 h2 h3] by simp
qed

theorem add_sequence_counterexample:
  "fst (getFavorites STORAGE_KEY no_storage) = JArr [] \<and>
   fst (getFavorites STORAGE_KEY (add_all STORAGE_KEY [(tokyo, 100)] no_storage))
     \<noteq> favs_json [new_favorite tokyo 100]"
  by code_simp

text \<open>
  \<^bold>\<open>C3\<close> (adding a present id).  When the stored collection already holds an entry with the
  post's id, \<open>addFavorite\<close> returns \<open>false\<close> and leaves the whole service state as it was: the
  store, hence what \<open>getFavorites\<close> returns, and the record of listener calls.
\<close>

theorem add_existing_is_noop:
  assumes "fst (getFavorites k s) = favs_json fs"
    and "post_id p \<in> fav_id ` set fs"
  shows "fst (addFavorite k p now s) = Inr False \<and>
         localStorage (snd (addFavorite k p now s)) = localStorage s \<and>
         getFavorites k (snd (addFavorite k p now s)) = getFavorites k s \<and>
         calls (snd (addFavorite k p now s)) = calls s"
  using addFavorite_present [OF assms] by simp

theorem add_existing_is_noop_witness:
  "fst (getFavorites STORAGE_KEY two_saved) = favs_json [new_favorite paris 101, new_favorite tokyo 100] \<and>
   post_id tokyo \<in> fav_id ` set [new_favorite paris 101, new_favorite tokyo 100] \<and>
   fst (addFavorite STORAGE_KEY tokyo 102 two_saved) = Inr False \<and>
   localStorage (snd (addFavorite STORAGE_KEY tokyo 102 two_saved)) = localStorage two_saved \<and>
   getFavorites STORAGE_KEY (snd (addFavorite STORAGE_KEY tokyo 102 two_saved))
     = getFavorites STORAGE_KEY two_saved \<and>
   calls (snd (addFavorite STORAGE_KEY tokyo 102 two_saved)) = calls two_saved"
proof -
  have h1: "fst (getFavorites STORAGE_KEY two_saved)
              = favs_json [new_favorite paris 101, new_favorite tokyo 100]"
    by code_simp
  have h2: "post_id tokyo \<in> fav_id ` set [new_favorite paris 101, new_favorite tokyo 100]"
    by (simp add: new_favorite_def)
  show ?thesis using h1 h2 add_existing_is_noop [OF h1 h2, of 102] by simp
qed

text \<open>
  \<^bold>\<open>C4\<close> (rejected write).  The first half of the claim holds and the second does not.  In
  \<open>writeFavorites\<close> the listener loop stands inside the \<open>try\<close> block after \<open>setItem\<close>, so a
  throwing \<open>setItem\<close> skips it.  When the store rejects the write, each of \<open>addFavorite\<close>,
  \<open>removeFavorite\<close> and \<open>clearAllFavorites\<close> returns normally (\<open>addFavorite\<close> still answers
  \<open>true\<close>), leaves the store as it was, calls no listener, and logs the error to the console.
\<close>

theorem rejected_write_is_swallowed:
  "(\<not> write_accepted k (JArr []) s \<longrightarrow>
      clearAllFavorites k s
        = s\<lparr>console := console s @ [(js ''Erro ao salvar favoritos:'', QuotaExceededError)]\<rparr>)
   \<and>
   (fst (getFavorites k s) = favs_json fs \<and> post_id p \<notin> fav_id ` set fs \<and>
    \<not> write_accepted k (favs_json (new_favorite p now # fs)) s \<longrightarrow>
      fst (addFavorite k p now s) = Inr True \<and>
      localStorage (snd (addFavorite k p now s)) = localStorage s \<and>
      calls (snd (addFavorite k p now s)) = calls s \<and>
      console (snd (addFavorite k p now s))
        = console (snd (getFavorites k s)) @ [(js ''Erro ao salvar favoritos:'', QuotaExceededError)])
   \<and>
   (fst (getFavorites k s) = favs_json fs \<and>
    \<not> write_accepted k (favs_json (filter (\<lambda>f. fav_id f \<noteq> i) fs)) s \<longrightarrow>
      fst (removeFavorite k i s) = Inr () \<and>
      localStorage (snd (removeFavorite k i s)) = localStorage s \<and>
      calls (snd (removeFavorite k i s)) = calls s \<and>
      console (snd (removeFavorite k i s))
        = console (snd (getFavorites k s)) @ [(js ''Erro ao salvar favoritos:'', QuotaExceededError)])"
proof (intro conjI impI)
  assume "\<not> write_accepted k (JArr []) s"
  then show "clearAllFavorites k s
        = s\<lparr>console := console s @ [(js ''Erro ao salvar favoritos:'', QuotaExceededError)]\<rparr>"
    by (simp add: clearAllFavorites_def writeFavorites_rejected)
next
  assume a: "fst (getFavorites k s) = favs_json fs \<and> post_id p \<notin> fav_id ` set fs \<and>
    \<not> write_accepted k (favs_json (new_favorite p now # fs)) s"
  then have eq: "addFavorite k p now s
      = (Inr True, writeFavorites k (favs_json (new_favorite p now # fs)) (snd (getFavorites k s)))"
    by (intro addFavorite_absent) simp_all
  from a have rej: "\<not> write_accepted k (favs_json (new_favorite p now # fs)) (snd (getFavorites k s))"
    by simp
  show "fst (addFavorite k p now s) = Inr True" by (simp add: eq)
  show "localStorage (snd (addFavorite k p now s)) = localStorage s"
    by (simp add: eq writeFavorites_rejected [OF rej] getFavorites_keeps)
  show "calls (snd (addFavorite k p now s)) = calls s"
    by (simp add: eq writeFavorites_rejected [OF rej] getFavorites_keeps)
  show "console (snd (addFavorite k p now s))
        = console (snd (getFavorites k s)) @ [(js ''Erro ao salvar favoritos:'', QuotaExceededError)]"
    by (simp add: eq writeFavorites_rejected [OF rej])
next
  assume a: "fst (getFavorites k s) = favs_json fs \<and>
    \<not> write_accepted k (favs_json (filter (\<lambda>f. fav_id f \<noteq> i) fs)) s"
  then have eq: "removeFavorite k i s
      = (Inr (), writeFavorites k (favs_json (filter (\<lambda>f. fav_id f \<noteq> i) fs)) (snd (getFavorites k s)))"
    by (intro removeFavorite_favs) simp
  from a have rej: "\<not> write_accepted k (favs_json (filter (\<lambda>f. fav_id f \<noteq> i) fs)) (snd (getFavorites k s))"
    by simp
  show "fst (removeFavorite k i s) = Inr ()" by (simp add: eq)
  show "localStorage (snd (removeFavorite k i s)) = localStorage s"
    by (simp add: eq writeFavorites_rejected [OF rej] getFavorites_keeps)
  show "calls (snd (removeFavorite k i s)) = calls s"
    by (simp add: eq writeFavorites_rejected [OF rej] getFavorites_keeps)
  show "console (snd (removeFavorite k i s))
        = console (snd (getFavorites k s)) @ [(js ''Erro ao salvar favoritos:'', QuotaExceededError)]"
    by (simp add: eq writeFavorites_rejected [OF rej])
qed

theorem rejected_write_is_swallowed_witness:
  "\<not> write_accepted STORAGE_KEY (JArr []) no_storage \<and>
   fst (getFavorites STORAGE_KEY no_storage) = favs_json [] \<and>
   post_id tokyo \<notin> fav_id ` set [] \<and>
   \<not> write_accepted STORAGE_KEY (favs_json [new_favorite tokyo 100]) no_storage \<and>
   \<not> write_accepted STORAGE_KEY (favs_json (filter (\<lambda>f. fav_id f \<noteq> 7) [])) no_storage \<and>
   clearAllFavorites STORAGE_KEY no_storage
     = no_storage\<lparr>console := [(js ''Erro ao salvar favoritos:'', QuotaExceededError)]\<rparr> \<and>
   fst (addFavorite STORAGE_KEY tokyo 100 no_storage) = Inr True \<and>
   localStorage (snd (addFavorite STORAGE_KEY tokyo 100 no_storage)) = localStorage no_storage \<and>
   calls (snd (addFavorite STORAGE_KEY tokyo 100 no_storage)) = [] \<and>
   fst (removeFavorite STORAGE_KEY 7 no_storage) = Inr () \<and>
   localStorage (snd (removeFavorite STORAGE_KEY 7 no_storage)) = localStorage no_storage \<and>
   calls (snd (removeFavorite STORAGE_KEY 7 no_storage)) = []"
proof -
  have h1: "\<not> write_accepted STORAGE_KEY (JArr []) no_storage" by code_simp
  have h2: "fst (getFavorites STORAGE_KEY no_storage) = favs_json []" by code_simp
  have h3: "post_id tokyo \<notin> fav_id ` set []" by simp
  have h4: "\<not> write_accepted STORAGE_KEY (favs_json (new_favorite tokyo 100 # [])) no_storage"
    by code_simp
  have h5: "\<not> write_accepted STORAGE_KEY (favs_json (filter (\<lambda>f. fav_id f \<noteq> 7) [])) no_storage"
    by code_simp
  have c: "calls no_storage = []" "console no_storage = []" by (simp_all add: no_storage_def)
  show ?thesis
    using h1 h2 h3 h4 h5 c
      rejected_write_is_swallowed [of STORAGE_KEY no_storage "[]" tokyo 100 7]
    by simp
qed

theorem notify_after_failed_write_counterexample:
  "listeners no_storage = [0] \<and>
   \<not> write_accepted STORAGE_KEY (JArr []) no_storage \<and>
   calls (clearAllFavorites STORAGE_KEY no_storage) = [] \<and>
   calls (snd (addFavorite STORAGE_KEY tokyo 100 no_storage)) = [] \<and>
   calls (snd (removeFavorite STORAGE_KEY 7 no_storage)) = []"
  by code_simp

text \<open>
  \<^bold>\<open>C5\<close> (reading the store).  \<open>getFavorites\<close> never raises, and it returns the empty array
  when the key is absent, when the stored string is empty, and when \<open>JSON.parse\<close> throws (the
  error is logged to the console).  It does not check the shape of what \<open>JSON.parse\<close> returns:
  a stored value that is valid JSON is handed back as parsed, also when it is not a sequence
  of favorite records.  So the claim fails for the stored text \<open>{}\<close>.
\<close>

theorem getFavorites_fail_open:
  "(getItem k (localStorage s) = None \<longrightarrow> getFavorites k s = (JArr [], s)) \<and>
   (getItem k (localStorage s) = Some [] \<longrightarrow> getFavorites k s = (JArr [], s)) \<and>
   (getItem k (localStorage s) = Some stored \<and> stored \<noteq> [] \<and> JSON_parse stored = None \<longrightarrow>
      getFavorites k s
        = (JArr [], s\<lparr>console := console s @ [(js ''Erro ao ler favoritos:'', SyntaxError)]\<rparr>)) \<and>
   (getItem k (localStorage s) = Some stored \<and> stored \<noteq> [] \<and> JSON_parse stored = Some v \<longrightarrow>
      getFavorites k s = (v, s))"
  by (simp add: getFavorites_def)

theorem getFavorites_fail_open_witness:
  "getItem STORAGE_KEY (localStorage fresh) = None \<and>
   getFavorites STORAGE_KEY fresh = (JArr [], fresh) \<and>
   getItem STORAGE_KEY (localStorage (with_stored [])) = Some [] \<and>
   getFavorites STORAGE_KEY (with_stored []) = (JArr [], with_stored []) \<and>
   getItem STORAGE_KEY (localStorage (with_stored (js ''not json''))) = Some (js ''not json'') \<and>
   js ''not json'' \<noteq> [] \<and> JSON_parse (js ''not json'') = None \<and>
   getFavorites STORAGE_KEY (with_stored (js ''not json''))
     = (JArr [], (with_stored (js ''not json''))
                   \<lparr>console := [(js ''Erro ao ler favoritos:'', SyntaxError)]\<rparr>) \<and>
   getItem STORAGE_KEY (localStorage (with_stored (js ''[1]''))) = Some (js ''[1]'') \<and>
   js ''[1]'' \<noteq> [] \<and> JSON_parse (js ''[1]'') = Some (JArr [JNum 1 0]) \<and>
   getFavorites STORAGE_KEY (with_stored (js ''[1]'')) = (JArr [JNum 1 0], with_stored (js ''[1]''))"
proof -
  have a: "getItem STORAGE_KEY (localStorage fresh) = None" by code_simp
  have b: "getItem STORAGE_KEY (localStorage (with_stored [])) = Some []" by code_simp
  have c: "getItem STORAGE_KEY (localStorage (with_stored (js ''not json''))) = Some (js ''not json'')"
    "js ''not json'' \<noteq> []" "JSON_parse (js ''not json'') = None"
    by code_simp+
  have d: "getItem STORAGE_KEY (localStorage (with_stored (js ''[1]''))) = Some (js ''[1]'')"
    "js ''[1]'' \<noteq> []" "JSON_parse (js ''[1]'') = Some (JArr [JNum 1 0])"
    by code_simp+
  have e: "console (with_stored t) = []" for t by (simp add: with_stored_def)
  show ?thesis
    using a b c d e
      getFavorites_fail_open [of STORAGE_KEY fresh]
      getFavorites_fail_open [of STORAGE_KEY "with_stored []"]
      getFavorites_fail_open [of STORAGE_KEY "with_stored (js ''not json'')" "js ''not json''"]
      getFavorites_fail_open [of STORAGE_KEY "with_stored (js ''[1]'')" "js ''[1]''" "JArr [JNum 1 0]"]
    by simp
qed

theorem getFavorites_not_validated_counterexample:
  "getItem STORAGE_KEY (localStorage (with_stored (js ''{}''))) = Some (js ''{}'') \<and>
   JSON_parse (js ''{}'') = Some (JObj []) \<and>
   fst (getFavorites STORAGE_KEY (with_stored (js ''{}''))) = JObj [] \<and>
   fst (getFavorites STORAGE_KEY (with_stored (js ''{}''))) \<noteq> JArr []"
  by code_simp

text \<open>
  \<^bold>\<open>C6\<close> (removal).  As stated the claim fails: on a store that rejects the write the listener
  is not called.  When the store accepts the write of the filtered collection, and the stored
  collection has pairwise distinct ids (the invariant of C1), \<open>removeFavorite\<close> returns
  normally, the collection read back is the old one without the entries of that id, its
  length is one less when the id was present and unchanged when it was absent, and every
  registered listener is called exactly once, with the filtered collection, in both cases.
\<close>

theorem remove_filters_and_notifies:
  assumes "fst (getFavorites k s) = favs_json fs"
    and "distinct (map fav_id fs)"
    and "write_accepted k (favs_json (filter (\<lambda>f. fav_id f \<noteq> i) fs)) s"
  shows "fst (removeFavorite k i s) = Inr () \<and>
         fst (getFavorites k (snd (removeFavorite k i s)))
           = favs_json (filter (\<lambda>f. fav_id f \<noteq> i) fs) \<and>
         i \<notin> fav_id ` set (filter (\<lambda>f. fav_id f \<noteq> i) fs) \<and>
         length (filter (\<lambda>f. fav_id f \<noteq> i) fs)
           = (if i \<in> fav_id ` set fs then length fs - 1 else length fs) \<and>
         calls (snd (removeFavorite k i s))
           = calls s @ map (\<lambda>l. (l, favs_json (filter (\<lambda>f. fav_id f \<noteq> i) fs))) (listeners s)"
proof -
  let ?kept = "filter (\<lambda>f. fav_id f \<noteq> i) fs"
  let ?s1 = "snd (getFavorites k s)"
  have eq: "removeFavorite k i s = (Inr (), writeFavorites k (favs_json ?kept) ?s1)"
    using assms(1) by (rule removeFavorite_favs)
  have acc: "write_accepted k (favs_json ?kept) ?s1" using assms(3) by simp
  then obtain ls where w: "writeFavorites k (favs_json ?kept) ?s1
      = ?s1\<lparr>localStorage := ls, calls := calls ?s1 @ map (\<lambda>l. (l, favs_json ?kept)) (listeners ?s1)\<rparr>"
    by (rule writeFavorites_accepted)
  have "fst (getFavorites k (writeFavorites k (favs_json ?kept) ?s1)) = favs_json ?kept"
    using acc by (simp add: getFavorites_written)
  moreover have "calls (writeFavorites k (favs_json ?kept) ?s1)
      = calls s @ map (\<lambda>l. (l, favs_json ?kept)) (listeners s)"
    unfolding w by (simp add: getFavorites_keeps)
  moreover have "length ?kept = (if i \<in> fav_id ` set fs then length fs - 1 else length fs)"
    using assms(2) by (rule length_filter_distinct)
  moreover have "i \<notin> fav_id ` set ?kept" by auto
  ultimately show ?thesis unfolding eq by simp
qed

theorem remove_filters_and_notifies_witness:
  "fst (getFavorites STORAGE_KEY two_saved) = favs_json [new_favorite paris 101, new_favorite tokyo 100] \<and>
   distinct (map fav_id [new_favorite paris 101, new_favorite tokyo 100]) \<and>
   write_accepted STORAGE_KEY (favs_json [new_favorite paris 101]) two_saved \<and>
   fst (removeFavorite STORAGE_KEY 7 two_saved) = Inr () \<and>
   fst (getFavorites STORAGE_KEY (snd (removeFavorite STORAGE_KEY 7 two_saved)))
     = favs_json [new_favorite paris 101] \<and>
   calls (snd (removeFavorite STORAGE_KEY 7 two_saved))
     = calls two_saved @ [(0, favs_json [new_favorite paris 101])]"
proof -
  have h1: "fst (getFavorites STORAGE_KEY two_saved)
              = favs_json [new_favorite paris 101, new_favorite tokyo 100]"
    by code_simp
  have h2: "distinct (map fav_id [new_favorite paris 101, new_favorite tokyo 100])"
    by (simp add: new_favorite_def paris_def tokyo_def)
  have f: "filter (\<lambda>f. fav_id f \<noteq> 7) [new_favorite paris 101, new_favorite tokyo 100]
             = [new_favorite paris 101]"
    by (simp add: new_favorite_def paris_def tokyo_def)
  have h3: "write_accepted STORAGE_KEY
              (favs_json (filter (\<lambda>f. fav_id f \<noteq> 7) [new_favorite paris 101, new_favorite tokyo 100]))
              two_saved"
    unfolding f by code_simp
  have l: "listeners two_saved = [0]" by code_simp
  note r = remove_filters_and_notifies [OF h1 h2 h3, unfolded f]
  show ?thesis
    using h1 h2 h3 [unfolded f] l r by simp
qed

theorem remove_absent_counterexample:
  "fst (getFavorites STORAGE_KEY no_storage) = JArr [] \<and>
   listeners no_storage = [0] \<and>
   fst (removeFavorite STORAGE_KEY 999 no_storage) = Inr () \<and>
   calls (snd (removeFavorite STORAGE_KEY 999 no_storage)) = []"
  by code_simp

text \<open>
  \<^bold>\<open>C7\<close> (round trip).  Serialising a collection of favorite records with \<open>JSON.stringify\<close>
  and parsing the text with \<open>JSON.parse\<close> gives the collection back, for every collection.
  Through the store this needs the write to be accepted: \<open>writeFavorites\<close> followed by
  \<open>getFavorites\<close> returns the collection written whenever the store accepts the write, and
  not otherwise (a rejected write leaves the old content in place).
\<close>

theorem write_then_read_roundtrip:
  "JSON_parse (JSON_stringify (favs_json fs)) = Some (favs_json fs) \<and>
   (write_accepted k (favs_json fs) s \<longrightarrow>
      fst (getFavorites k (writeFavorites k (favs_json fs) s)) = favs_json fs)"
  by (simp add: JSON_roundtrip_favs getFavorites_written)

theorem write_then_read_roundtrip_witness:
  "write_accepted STORAGE_KEY (favs_json [new_favorite paris 101, new_favorite tokyo 100]) fresh \<and>
   JSON_parse (JSON_stringify (favs_json [new_favorite paris 101, new_favorite tokyo 100]))
     = Some (favs_json [new_favorite paris 101, new_favorite tokyo 100]) \<and>
   fst (getFavorites STORAGE_KEY
          (writeFavorites STORAGE_KEY (favs_json [new_favorite paris 101, new_favorite tokyo 100]) fresh))
     = favs_json [new_favorite paris 101, new_favorite tokyo 100]"
proof -
  have h: "write_accepted STORAGE_KEY (favs_json [new_favorite paris 101, new_favorite tokyo 100]) fresh"
    by code_simp
  show ?thesis
    using h write_then_read_roundtrip
            [of "[new_favorite paris 101, new_favorite tokyo 100]" STORAGE_KEY fresh]
    by simp
qed

theorem write_then_read_counterexample:
  "fst (getFavorites STORAGE_KEY
          (writeFavorites STORAGE_KEY (favs_json [new_favorite tokyo 100]) no_storage))
     \<noteq> favs_json [new_favorite tokyo 100]"
  by code_simp


text \<open>
  \<^bold>\<open>C8\<close> (theme resolution).  The theme that \<^verbatim>\<open>createThemeService\<close> starts with is the
  stored one when the value stored under the theme key is exactly \<^verbatim>\<open>light\<close> or \<^verbatim>\<open>dark\<close>;
  with no value or any other value it is what the operating system reports through
  \<^verbatim>\<open>matchMedia\<close>; and it is \<^verbatim>\<open>light\<close> when \<^verbatim>\<open>matchMedia\<close> is missing.
\<close>

theorem initial_theme_resolution:
  "currentTheme (createThemeService themeKey ls mm) =
     (if getItem themeKey ls = Some (js ''light'') then Light
      else if getItem themeKey ls = Some (js ''dark'') then Dark
      else (case mm of Some True \<Rightarrow> Dark | Some False \<Rightarrow> Light | None \<Rightarrow> Light))"
  by (simp add: createThemeService_def applyTheme_def getSavedTheme_def getSystemTheme_def
           split: option.splits bool.splits)


lemma initial_theme_examples:
  "currentTheme (createThemeService THEME_KEY \<lparr>items = [(THEME_KEY, js ''dark'')], quota = 9\<rparr> (Some False)) = Dark"
  "currentTheme (createThemeService THEME_KEY \<lparr>items = [(THEME_KEY, js ''Dark'')], quota = 9\<rparr> (Some True)) = Dark"
  "currentTheme (createThemeService THEME_KEY \<lparr>items = [(THEME_KEY, js ''blue'')], quota = 9\<rparr> (Some False)) = Light"
  "currentTheme (createThemeService THEME_KEY \<lparr>items = [], quota = 9\<rparr> None) = Light"
  by code_simp+

text \<open>
  \<^bold>\<open>C9\<close> (frame of a successful add).  \<open>addFavorite\<close> answers \<open>true\<close> as soon as the id is
  new, also when the store then rejects the write and nothing is saved; so the claim fails
  as stated.  When the store accepts the write, the collection read back is the new favorite
  followed by the old collection: the new entry is at position 0 and every old entry, with
  all its fields, sits one position later.
\<close>

theorem add_new_prepends:
  assumes "fst (getFavorites k s) = favs_json fs"
    and "post_id p \<notin> fav_id ` set fs"
    and "write_accepted k (favs_json (new_favorite p now # fs)) s"
  shows "fst (addFavorite k p now s) = Inr True \<and>
         (\<exists>fs'. fst (getFavorites k (snd (addFavorite k p now s))) = favs_json fs' \<and>
                length fs' = Suc (length fs) \<and>
                fs' ! 0 = new_favorite p now \<and>
                (\<forall>j < length fs. fs' ! Suc j = fs ! j))"
proof -
  let ?s1 = "snd (getFavorites k s)"
  have eq: "addFavorite k p now s
      = (Inr True, writeFavorites k (favs_json (new_favorite p now # fs)) ?s1)"
    using assms(1,2) by (rule addFavorite_absent)
  have "write_accepted k (favs_json (new_favorite p now # fs)) ?s1" using assms(3) by simp
  then have "fst (getFavorites k (writeFavorites k (favs_json (new_favorite p now # fs)) ?s1))
               = favs_json (new_favorite p now # fs)"
    by (simp add: getFavorites_written)
  then show ?thesis
    unfolding eq by (intro conjI exI [of _ "new_favorite p now # fs"]) simp_all
qed

theorem add_new_prepends_witness:
  "fst (getFavorites STORAGE_KEY two_saved) = favs_json [new_favorite paris 101, new_favorite tokyo 100] \<and>
   post_id \<lparr>userId = 3, post_id = 5, post_title = js ''Lima'', body = []\<rparr>
     \<notin> fav_id ` set [new_favorite paris 101, new_favorite tokyo 100] \<and>
   fst (addFavorite STORAGE_KEY \<lparr>userId = 3, post_id = 5, post_title = js ''Lima'', body = []\<rparr> 102
          two_saved) = Inr True \<and>
   fst (getFavorites STORAGE_KEY
          (snd (addFavorite STORAGE_KEY \<lparr>userId = 3, post_id = 5, post_title = js ''Lima'', body = []\<rparr>
                  102 two_saved)))
     = favs_json [\<lparr>fav_id = 5, fav_title = js ''Lima'', timestamp = 102\<rparr>,
                  new_favorite paris 101, new_favorite tokyo 100]"
proof -
  let ?p = "\<lparr>userId = 3, post_id = 5, post_title = js ''Lima'', body = []\<rparr>"
  have h1: "fst (getFavorites STORAGE_KEY two_saved)
              = favs_json [new_favorite paris 101, new_favorite tokyo 100]"
    by code_simp
  have h2: "post_id ?p \<notin> fav_id ` set [new_favorite paris 101, new_favorite tokyo 100]"
    by (simp add: new_favorite_def paris_def tokyo_def)
  have h3: "write_accepted STORAGE_KEY
              (favs_json (new_favorite ?p 102 # [new_favorite paris 101, new_favorite tokyo 100]))
              two_saved"
    by code_simp
  from add_new_prepends [OF h1 h2 h3]
  obtain fs' where r: "fst (addFavorite STORAGE_KEY ?p 102 two_saved) = Inr True"
    "fst (getFavorites STORAGE_KEY (snd (addFavorite STORAGE_KEY ?p 102 two_saved))) = favs_json fs'"
    "length fs' = 3" "fs' ! 0 = new_favorite ?p 102"
    "fs' ! Suc 0 = new_favorite paris 101" "fs' ! Suc (Suc 0) = new_favorite tokyo 100"
    by (auto simp: numeral_2_eq_2)
  have "fs' = [new_favorite ?p 102, new_favorite paris 101, new_favorite tokyo 100]"
    using r(3-6) by (simp add: list_eq_iff_nth_eq numeral_3_eq_3 less_Suc_eq)
  with r(1,2) h1 h2 show ?thesis by (simp add: new_favorite_def)
qed

theorem add_returns_true_unsaved_counterexample:
  "fst (getFavorites STORAGE_KEY no_storage) = JArr [] \<and>
   fst (addFavorite STORAGE_KEY tokyo 100 no_storage) = Inr True \<and>
   fst (getFavorites STORAGE_KEY (snd (addFavorite STORAGE_KEY tokyo 100 no_storage))) = JArr []"
  by code_simp

text \<open>
  \<^bold>\<open>C10\<close> (toggle is an involution).  Two calls of \<^verbatim>\<open>toggleTheme\<close> bring \<^verbatim>\<open>currentTheme\<close>
  back to its value, for both values, and also when the store rejects the write: the
  assignment comes before \<^verbatim>\<open>setItem\<close>.
\<close>

theorem toggle_twice_restores_theme:
  "currentTheme (snd (toggleTheme themeKey (snd (toggleTheme themeKey s)))) = currentTheme s"
  by (cases "currentTheme s")
     (simp_all add: toggleTheme_def setTheme_def applyTheme_def Let_def split: sum.splits)

end
